theory Spec2Isabelle
  imports Complex_Main
begin

section \<open>Arrays\<close>

text \<open>
  The program is one NumPy routine, \<^verbatim>\<open>blinkiva_gauss\<close> in \<^verbatim>\<open>src/blinkiva_gauss.py\<close>.
  An n-dimensional array is a nested list, outermost axis first, so that \<^verbatim>\<open>A[i,j]\<close> is
  \<open>A ! i ! j\<close> and \<^verbatim>\<open>A.shape[0]\<close> is \<open>length A\<close>.  A \<^verbatim>\<open>float64\<close> is a \<open>real\<close> and a
  \<^verbatim>\<open>complex128\<close> is a \<open>complex\<close>: arithmetic is exact, there is no rounding, no infinity
  and no NaN.  Where NumPy would divide by zero (and continue with \<^verbatim>\<open>inf\<close> or \<^verbatim>\<open>nan\<close>)
  the theorems below carry the hypothesis that the divisor is not zero.

  A fresh array, the value of a NumPy expression, is tabulated from its shape and an
  index function (\<open>tab\<close>); an in-place operation maps over the buffer it writes
  (\<open>imap\<close>), which keeps the buffer's shape as NumPy does.
\<close>

type_synonym rmat = "real list list"
type_synonym cmat = "complex list list"
type_synonym ctens = "complex list list list"

definition tab :: "nat \<Rightarrow> (nat \<Rightarrow> 'a) \<Rightarrow> 'a list" where
  "tab n f = map f [0..<n]"

definition tab2 :: "nat \<Rightarrow> nat \<Rightarrow> (nat \<Rightarrow> nat \<Rightarrow> 'a) \<Rightarrow> 'a list list" where
  "tab2 m n f = tab m (\<lambda>i. tab n (f i))"

definition tab3 :: "nat \<Rightarrow> nat \<Rightarrow> nat \<Rightarrow> (nat \<Rightarrow> nat \<Rightarrow> nat \<Rightarrow> 'a) \<Rightarrow> 'a list list list" where
  "tab3 l m n f = tab l (\<lambda>i. tab2 m n (f i))"

definition imap :: "(nat \<Rightarrow> 'a \<Rightarrow> 'b) \<Rightarrow> 'a list \<Rightarrow> 'b list" where
  "imap f xs = map (\<lambda>i. f i (xs ! i)) [0..<length xs]"

definition imap2 :: "(nat \<Rightarrow> nat \<Rightarrow> 'a \<Rightarrow> 'b) \<Rightarrow> 'a list list \<Rightarrow> 'b list list" where
  "imap2 f A = imap (\<lambda>i. imap (f i)) A"

definition imap3 ::
  "(nat \<Rightarrow> nat \<Rightarrow> nat \<Rightarrow> 'a \<Rightarrow> 'b) \<Rightarrow> 'a list list list \<Rightarrow> 'b list list list" where
  "imap3 f A = imap (\<lambda>i. imap2 (f i)) A"

text \<open>\<open>shape2 A m n\<close>: \<^verbatim>\<open>A.shape == (m, n)\<close>; \<open>shape3\<close> likewise for three axes.\<close>

definition shape2 :: "'a list list \<Rightarrow> nat \<Rightarrow> nat \<Rightarrow> bool" where
  "shape2 A m n \<longleftrightarrow> length A = m \<and> (\<forall>i<m. length (A ! i) = n)"

definition shape3 :: "'a list list list \<Rightarrow> nat \<Rightarrow> nat \<Rightarrow> nat \<Rightarrow> bool" where
  "shape3 A l m n \<longleftrightarrow> length A = l \<and> (\<forall>i<l. shape2 (A ! i) m n)"

text \<open>\<^verbatim>\<open>np.finfo(float).eps\<close>, the gap between 1 and the next \<^verbatim>\<open>float64\<close>.\<close>

definition machine_epsilon :: real where
  "machine_epsilon = 1 / 2 ^ 52"

section \<open>Memory, the ambient generator and the library\<close>

text \<open>
  NumPy arrays are mutable objects that the caller and the routine may share, so the arrays
  that are bound to a name and written in place live in a store: \<open>carr\<close> maps an address to
  a complex array of three axes, \<open>rarr\<close> to a real array of two axes, \<open>cfree\<close> and
  \<open>rfree\<close> are the first unused addresses.  \<^verbatim>\<open>np.array(...)\<close>, \<^verbatim>\<open>np.zeros\<close>,
  \<^verbatim>\<open>np.ones\<close>, \<^verbatim>\<open>.copy()\<close> and an arithmetic expression allocate; \<^verbatim>\<open>R = R_all[:,:n_src]\<close>
  is a view: reading and writing \<^verbatim>\<open>R\<close> reads and writes the first \<^verbatim>\<open>n_src\<close> columns
  of the buffer of \<^verbatim>\<open>R_all\<close>.  Temporaries that are never written after their creation
  (\<^verbatim>\<open>U_mean\<close>, \<^verbatim>\<open>U_hat\<close>, \<^verbatim>\<open>V\<close>, \<^verbatim>\<open>lmb\<close>, ...) are plain values.

  \<open>np_random\<close> is the state of the process-wide generator behind \<^verbatim>\<open>np.random\<close>;
  \<open>stdout\<close> lists the costs that \<^verbatim>\<open>print\<close> has written; \<open>cb_log\<close> lists the
  arguments the routine has passed to \<^verbatim>\<open>callback\<close>.
\<close>

datatype cb_call =
    CbProjected ctens
  | CbRaw ctens ctens rmat rmat ctens rmat

record 'g world =
  carr :: "nat \<Rightarrow> ctens"
  rarr :: "nat \<Rightarrow> rmat"
  cfree :: nat
  rfree :: nat
  np_random :: 'g
  stdout :: "real list"
  cb_log :: "cb_call list"

text \<open>
  Functions of libraries, not of this repository, are parameters of the model:
  \<^verbatim>\<open>np.random.rand(m, n)\<close> (\<open>np_rand g m n\<close> is the array drawn and the generator's next
  state), \<^verbatim>\<open>np.random.seed\<close>, \<^verbatim>\<open>np.linalg.solve\<close> on one matrix and one right-hand
  side (\<open>None\<close> when it raises \<^verbatim>\<open>LinAlgError\<close>) and pyroomacoustics'
  \<^verbatim>\<open>projection_back\<close>.
\<close>

record 'g ext =
  np_rand :: "'g \<Rightarrow> nat \<Rightarrow> nat \<Rightarrow> rmat \<times> 'g"
  np_seed :: "int \<Rightarrow> 'g"
  np_solve :: "cmat \<Rightarrow> complex list \<Rightarrow> complex list option"
  projection_back :: "ctens \<Rightarrow> cmat \<Rightarrow> cmat"

datatype error = ValueError | LinAlgError

text \<open>
  The names of the routine: the shapes read at lines 48-56, \<^verbatim>\<open>sparse_reg\<close>, the value of
  \<^verbatim>\<open>U_mean\<close> (line 68) and the addresses the array names are bound to.
\<close>

record env =
  n_frames :: nat
  n_freq :: nat
  n_chan :: nat
  n_blink :: nat
  n_src :: nat
  sparse_reg :: real
  U_mean :: rmat
  aX :: nat
  aU :: nat
  aW :: nat
  aY :: nat
  aP :: nat
  aR_all :: nat
  aG :: nat


section \<open>The demixer (lines 107-116)\<close>

text \<open>
  One iteration of the loop at line 108: \<^verbatim>\<open>Y[:,f,:] = np.dot(X[:,f,:], np.conj(W[f,:,:]))\<close>.
\<close>

definition demix_freq :: "env \<Rightarrow> nat \<Rightarrow> 'g world \<Rightarrow> 'g world" where
  "demix_freq e f w =
     (let X = carr w (aX e); W = carr w (aW e)
      in w\<lparr>carr := (carr w)(aY e :=
            imap3 (\<lambda>n f' c y. if f' = f then (\<Sum>k<n_chan e. X ! n ! f ! k * cnj (W ! f ! k ! c)) else y)
              (carr w (aY e)))\<rparr>)"

text \<open>\<^verbatim>\<open>np.linalg.norm(Y, axis=1) ** 2\<close> at frame \<open>n\<close> and channel \<open>c\<close>.\<close>

definition norm_sq :: "env \<Rightarrow> ctens \<Rightarrow> nat \<Rightarrow> nat \<Rightarrow> real" where
  "norm_sq e Y n c = (sqrt (\<Sum>f<n_freq e. (cmod (Y ! n ! f ! c))\<^sup>2))\<^sup>2"

definition demix :: "env \<Rightarrow> 'g world \<Rightarrow> 'g world" where
  "demix e w =
     (let w1 = fold (demix_freq e) [0..<n_freq e] w;
          Y = carr w1 (aY e);
          w2 = w1\<lparr>rarr := (rarr w1)(aP e :=
                 imap2 (\<lambda>n c p. norm_sq e Y n c / real (n_freq e)) (rarr w1 (aP e)))\<rparr>;
          P = rarr w2 (aP e)
      in w2\<lparr>rarr := (rarr w2)(aR_all e :=
            imap2 (\<lambda>n c r. if n_src e \<le> c then P ! n ! c else r) (rarr w2 (aR_all e)))\<rparr>)"

section \<open>The initializer of the factorization (lines 83-94)\<close>

text \<open>\<^verbatim>\<open>np.dot(R, G)\<close>, with \<^verbatim>\<open>R\<close> the first \<^verbatim>\<open>n_src\<close> columns of \<^verbatim>\<open>R_all\<close>.\<close>

definition U_hat_of :: "env \<Rightarrow> rmat \<Rightarrow> rmat \<Rightarrow> rmat" where
  "U_hat_of e R_all G =
     tab2 (n_frames e) (n_blink e) (\<lambda>n b. \<Sum>s<n_src e. R_all ! n ! s * G ! s ! b)"

text \<open>
  Line 87 assigns an array of \<^verbatim>\<open>n_src\<close> columns to the view \<^verbatim>\<open>R\<close>, which has
  \<^verbatim>\<open>min(n_src, n_chan)\<close> columns: with \<^verbatim>\<open>n_src > n_chan\<close> NumPy cannot broadcast and raises
  \<^verbatim>\<open>ValueError\<close>, after the generator has been seeded and advanced and before line 94
  restores it.
\<close>

definition init_nmf :: "'g ext \<Rightarrow> env \<Rightarrow> int option \<Rightarrow> 'g world \<Rightarrow> error option \<times> 'g world" where
  "init_nmf x e seed w =
     (let rng_state = np_random w;
          w1 = (case seed of None \<Rightarrow> w | Some sd \<Rightarrow> w\<lparr>np_random := np_seed x sd\<rparr>);
          (r1, g1) = np_rand x (np_random w1) (n_frames e) (n_src e);
          w2 = w1\<lparr>np_random := g1\<rparr>
      in if n_chan e < n_src e then (Some ValueError, w2)
         else
          (let w3 = w2\<lparr>rarr := (rarr w2)(aR_all e :=
                      imap2 (\<lambda>n c r. if c < n_src e then 0.1 + 0.9 * r1 ! n ! c else r)
                        (rarr w2 (aR_all e)))\<rparr>;
               R0 = rarr w3 (aR_all e);
               w4 = w3\<lparr>rarr := (rarr w3)(aR_all e :=
                      imap2 (\<lambda>n c r. if c < n_src e
                                then r / ((\<Sum>m<n_frames e. R0 ! m ! c) / real (n_frames e)) else r) R0)\<rparr>;
               (r2, g2) = np_rand x (np_random w4) (n_src e) (n_blink e);
               w5 = w4\<lparr>np_random := g2,
                      rarr := (rarr w4)(aG e := map (map (\<lambda>r. 0.1 + 0.9 * r)) r2)\<rparr>;
               U_hat = U_hat_of e (rarr w5 (aR_all e)) (rarr w5 (aG e));
               w6 = w5\<lparr>rarr := (rarr w5)(aG e :=
                      imap2 (\<lambda>s b g. g * ((\<Sum>n<n_frames e. U_mean e ! n ! b)
                                           / (\<Sum>n<n_frames e. U_hat ! n ! b)))
                        (rarr w5 (aG e)))\<rparr>
           in (None, case seed of None \<Rightarrow> w6 | Some sd \<Rightarrow> w6\<lparr>np_random := rng_state\<rparr>)))"

section \<open>The factorization updater (lines 138-161)\<close>

text \<open>The factor of line 144-147 at frame \<open>n\<close> and source \<open>s\<close>.\<close>

definition R_factor :: "env \<Rightarrow> rmat \<Rightarrow> rmat \<Rightarrow> rmat \<Rightarrow> nat \<Rightarrow> nat \<Rightarrow> real" where
  "R_factor e P R_all G n s =
     (let U_hat = U_hat_of e R_all G;
          U_hat_I = (\<lambda>b. 1 / U_hat ! n ! b);
          R_I = 1 / R_all ! n ! s
      in sqrt ((P ! n ! s * R_I\<^sup>2 + (\<Sum>b<n_blink e. U_mean e ! n ! b * (U_hat_I b)\<^sup>2 * G ! s ! b))
               / (R_I + (\<Sum>b<n_blink e. U_hat_I b * G ! s ! b) + sparse_reg e)))"

text \<open>The factor of line 153 at source \<open>s\<close> and sensor \<open>b\<close>.\<close>

definition G_factor :: "env \<Rightarrow> rmat \<Rightarrow> rmat \<Rightarrow> nat \<Rightarrow> nat \<Rightarrow> real" where
  "G_factor e R_all G s b =
     (let U_hat = U_hat_of e R_all G;
          U_hat_I = (\<lambda>n. 1 / U_hat ! n ! b)
      in sqrt ((\<Sum>n<n_frames e. R_all ! n ! s * (U_mean e ! n ! b * (U_hat_I n)\<^sup>2))
               / (\<Sum>n<n_frames e. R_all ! n ! s * U_hat_I n)))"

text \<open>Lines 141-148: the update of the activations and its floor.\<close>

definition update_R :: "env \<Rightarrow> 'g world \<Rightarrow> 'g world" where
  "update_R e w =
     (let P = rarr w (aP e); R0 = rarr w (aR_all e); G = rarr w (aG e);
          w1 = w\<lparr>rarr := (rarr w)(aR_all e :=
                 imap2 (\<lambda>n c r. if c < n_src e then r * R_factor e P R0 G n c else r) R0)\<rparr>
      in w1\<lparr>rarr := (rarr w1)(aR_all e :=
            imap2 (\<lambda>n c r. if c < n_src e \<and> r < machine_epsilon then machine_epsilon else r)
              (rarr w1 (aR_all e)))\<rparr>)"

text \<open>Lines 150-154: the update of the gains and its floor.\<close>

definition update_G :: "env \<Rightarrow> 'g world \<Rightarrow> 'g world" where
  "update_G e w =
     (let R0 = rarr w (aR_all e); G0 = rarr w (aG e);
          w1 = w\<lparr>rarr := (rarr w)(aG e := imap2 (\<lambda>s b g. g * G_factor e R0 G0 s b) G0)\<rparr>
      in w1\<lparr>rarr := (rarr w1)(aG e :=
            imap2 (\<lambda>s b g. if g < machine_epsilon then machine_epsilon else g) (rarr w1 (aG e)))\<rparr>)"

text \<open>
  The rescale, written twice in the source with the same five statements
  (lines 157-161 and lines 191-195).  \<open>lmb_of\<close> is \<^verbatim>\<open>1. / np.mean(R_all, axis=0)\<close>.
\<close>

definition lmb_of :: "env \<Rightarrow> rmat \<Rightarrow> real list" where
  "lmb_of e R_all = tab (n_chan e) (\<lambda>c. 1 / ((\<Sum>n<n_frames e. R_all ! n ! c) / real (n_frames e)))"

definition rescale :: "env \<Rightarrow> 'g world \<Rightarrow> 'g world" where
  "rescale e w =
     (let lmb = lmb_of e (rarr w (aR_all e));
          w1 = w\<lparr>rarr := (rarr w)(aR_all e := imap2 (\<lambda>n c r. r * lmb ! c) (rarr w (aR_all e)))\<rparr>;
          w2 = w1\<lparr>rarr := (rarr w1)(aP e := imap2 (\<lambda>n c p. p * lmb ! c) (rarr w1 (aP e)))\<rparr>;
          w3 = w2\<lparr>carr := (carr w2)(aW e :=
                 imap3 (\<lambda>f i j v. v * complex_of_real (sqrt (lmb ! j))) (carr w2 (aW e)))\<rparr>
      in w3\<lparr>rarr := (rarr w3)(aG e :=
            imap2 (\<lambda>s b g. g / take (n_src e) lmb ! s) (rarr w3 (aG e)))\<rparr>)"

definition nmf_sub_iter :: "env \<Rightarrow> 'g world \<Rightarrow> 'g world" where
  "nmf_sub_iter e w = rescale e (update_G e (update_R e w))"


section \<open>The auxiliary covariance (lines 165-170)\<close>

definition aux_V :: "env \<Rightarrow> ctens \<Rightarrow> rmat \<Rightarrow> complex list list list list" where
  "aux_V e X R_all =
     tab (n_freq e) (\<lambda>f. tab3 (n_chan e) (n_chan e) (n_chan e) (\<lambda>s i j.
       (\<Sum>n<n_frames e. X ! n ! f ! i / complex_of_real (1 / 10 ^ 15 + 2 * R_all ! n ! s)
                           * cnj (X ! n ! f ! j))
       / of_nat (n_frames e)))"

section \<open>The demixing-matrix solver (lines 174-186)\<close>

text \<open>
  NumPy orders complex numbers by real part, then by imaginary part; \<^verbatim>\<open>np.max\<close> and
  \<^verbatim>\<open>>\<close> at line 177 use that order.
\<close>

definition clex_less :: "complex \<Rightarrow> complex \<Rightarrow> bool" where
  "clex_less a b \<longleftrightarrow> Re a < Re b \<or> (Re a = Re b \<and> Im a < Im b)"

definition cmax :: "complex list \<Rightarrow> complex" where
  "cmax xs = foldl (\<lambda>m v. if clex_less m v then v else m) (hd xs) (tl xs)"

text \<open>\<^verbatim>\<open>I_up[f]\<close>, line 177.\<close>

definition I_up :: "complex list list list list \<Rightarrow> nat \<Rightarrow> nat \<Rightarrow> bool" where
  "I_up V s f \<longleftrightarrow> clex_less (complex_of_real (1 / 10 ^ 15)) (cmax (concat (V ! f ! s)))"

text \<open>\<^verbatim>\<open>WV[f]\<close>, lines 179-180, and the right-hand side \<^verbatim>\<open>I[:,s]\<close> of line 181.\<close>

definition WV_of :: "env \<Rightarrow> ctens \<Rightarrow> complex list list list list \<Rightarrow> nat \<Rightarrow> nat \<Rightarrow> cmat" where
  "WV_of e W V s f = tab2 (n_chan e) (n_chan e) (\<lambda>i j. \<Sum>k<n_chan e. cnj (W ! f ! k ! i) * V ! f ! s ! k ! j)"

definition unit_vec :: "env \<Rightarrow> nat \<Rightarrow> complex list" where
  "unit_vec e s = tab (n_chan e) (\<lambda>i. if i = s then 1 else 0)"

text \<open>
  Line 182 solves one system for each active frequency; \<^verbatim>\<open>np.linalg.solve\<close> raises
  \<^verbatim>\<open>LinAlgError\<close> when one of them is singular, and then nothing is assigned.  An inactive
  frequency has no system; its place in the list holds \<open>[]\<close>, which nothing reads.
\<close>

definition solve_active ::
  "'g ext \<Rightarrow> env \<Rightarrow> ctens \<Rightarrow> complex list list list list \<Rightarrow> nat \<Rightarrow> complex list list option" where
  "solve_active x e W V s =
     those (tab (n_freq e) (\<lambda>f. if I_up V s f then np_solve x (WV_of e W V s f) (unit_vec e s)
                                 else Some []))"

text \<open>\<^verbatim>\<open>np.sum(P1 * P2, axis=1)\<close> at frequency \<open>f\<close>, lines 184-186.\<close>

definition quad_form :: "env \<Rightarrow> ctens \<Rightarrow> complex list list list list \<Rightarrow> nat \<Rightarrow> nat \<Rightarrow> complex" where
  "quad_form e W V s f =
     (\<Sum>i<n_chan e. cnj (W ! f ! i ! s) * (\<Sum>j<n_chan e. V ! f ! s ! i ! j * W ! f ! j ! s))"

text \<open>The body of the loop at line 174, for one channel index \<open>s\<close>.\<close>

definition update_W_col ::
  "'g ext \<Rightarrow> env \<Rightarrow> complex list list list list \<Rightarrow> nat \<Rightarrow> 'g world \<Rightarrow> error option \<times> 'g world" where
  "update_W_col x e V s w =
     (case solve_active x e (carr w (aW e)) V s of
        None \<Rightarrow> (Some LinAlgError, w)
      | Some sol \<Rightarrow>
         (let w1 = w\<lparr>carr := (carr w)(aW e :=
                     imap3 (\<lambda>f i j v. if I_up V s f \<and> j = s then sol ! f ! i else v) (carr w (aW e)))\<rparr>;
              W1 = carr w1 (aW e)
          in (None, w1\<lparr>carr := (carr w1)(aW e :=
                     imap3 (\<lambda>f i j v. if I_up V s f \<and> j = s then v / csqrt (quad_form e W1 V s f) else v)
                       W1)\<rparr>)))"

text \<open>A loop whose body may raise: the first error ends it.\<close>

fun for_each :: "(nat \<Rightarrow> 'w \<Rightarrow> error option \<times> 'w) \<Rightarrow> nat list \<Rightarrow> 'w \<Rightarrow> error option \<times> 'w" where
  "for_each body [] w = (None, w)"
| "for_each body (i # is) w =
     (case body i w of
        (Some err, w') \<Rightarrow> (Some err, w')
      | (None, w') \<Rightarrow> for_each body is w')"

definition update_W :: "'g ext \<Rightarrow> env \<Rightarrow> 'g world \<Rightarrow> error option \<times> 'g world" where
  "update_W x e w =
     (let V = aux_V e (carr w (aX e)) (rarr w (aR_all e))
      in for_each (update_W_col x e V) [0..<n_chan e] w)"


section \<open>The costs (lines 96-104)\<close>

text \<open>
  The determinant, by expansion along the first row; \<^verbatim>\<open>np.linalg.slogdet(W)[1]\<close> is the
  logarithm of its modulus.
\<close>

function det :: "complex list list \<Rightarrow> complex" where
  "det [] = 1"
| "det (r # rs) =
     (\<Sum>j<length r. (- 1) ^ j * r ! j * det (map (\<lambda>q. take j q @ drop (Suc j) q) rs))"
  by pat_completeness auto
termination
  by (relation "measure length") auto

definition cost_nmf :: "env \<Rightarrow> rmat \<Rightarrow> rmat \<Rightarrow> rmat \<Rightarrow> real" where
  "cost_nmf e U G R_all =
     (let U_hat = U_hat_of e R_all G
      in \<Sum>n<n_frames e. \<Sum>b<n_blink e. ln (U_hat ! n ! b) + U ! n ! b / U_hat ! n ! b / 2)"

definition cost_iva :: "env \<Rightarrow> ctens \<Rightarrow> ctens \<Rightarrow> rmat \<Rightarrow> real" where
  "cost_iva e Y W R_all =
     - 2 * real (length Y) * (\<Sum>f<length W. ln (cmod (det (W ! f))))
     + (\<Sum>n<n_frames e. \<Sum>c<n_chan e.
          real (length (Y ! 0)) * ln (R_all ! n ! c) + norm_sq e Y n c / R_all ! n ! c)"

text \<open>
  The arguments of the logarithms and the divisors of lines 96-104 are positive: the
  costs of the arrays of \<open>w\<close> are finite real numbers.
\<close>

definition cost_defined :: "env \<Rightarrow> 'g world \<Rightarrow> bool" where
  "cost_defined e w \<longleftrightarrow>
     (\<forall>n<n_frames e. \<forall>b<n_blink e. 0 < U_hat_of e (rarr w (aR_all e)) (rarr w (aG e)) ! n ! b)
     \<and> (\<forall>n<n_frames e. \<forall>c<n_chan e. 0 < rarr w (aR_all e) ! n ! c)
     \<and> (\<forall>f<length (carr w (aW e)). det (carr w (aW e) ! f) \<noteq> 0)"

section \<open>The orchestration loop (lines 125-195)\<close>

text \<open>
  The parameters of \<^verbatim>\<open>blinkiva_gauss\<close>.  An array argument is the address of the caller's
  array; \<open>p_callback\<close> tells whether a callback was given.  \<^verbatim>\<open>n_src\<close>, \<^verbatim>\<open>n_iter\<close> and
  \<^verbatim>\<open>n_nmf_sub_iter\<close> are naturals (a negative \<^verbatim>\<open>n_src\<close> makes \<^verbatim>\<open>np.random.rand\<close> raise,
  a negative count gives an empty \<^verbatim>\<open>range\<close>).
\<close>

record args =
  p_X :: nat
  p_U :: nat
  p_n_src :: "nat option"
  p_sparse_reg :: real
  p_n_iter :: nat
  p_n_nmf_sub_iter :: nat
  p_proj_back :: bool
  p_W0 :: "nat option"
  p_seed :: "int option"
  p_print_cost :: bool
  p_return_filters :: bool
  p_callback :: bool

text \<open>\<^verbatim>\<open>Y * np.conj(z[None,:,:])\<close> with \<^verbatim>\<open>z = projection_back(Y, X[:,:,0])\<close>.\<close>

definition projected :: "'g ext \<Rightarrow> ctens \<Rightarrow> ctens \<Rightarrow> ctens" where
  "projected x Y X =
     (let z = projection_back x Y (map (map (\<lambda>r. r ! 0)) X)
      in imap3 (\<lambda>n f c y. y * cnj (z ! f ! c)) Y)"

text \<open>Lines 127-136: the callback and the cost report, every tenth epoch.\<close>

definition report :: "'g ext \<Rightarrow> env \<Rightarrow> args \<Rightarrow> nat \<Rightarrow> 'g world \<Rightarrow> 'g world" where
  "report x e a epoch w =
     (let X = carr w (aX e); U = rarr w (aU e); W = carr w (aW e); Y = carr w (aY e);
          R_all = rarr w (aR_all e); G = rarr w (aG e);
          w1 = (if p_callback a \<and> epoch mod 10 = 0
                then w\<lparr>cb_log := cb_log w @
                       [if p_proj_back a then CbProjected (projected x Y X)
                        else CbRaw Y W G (map (take (n_src e)) R_all) X U]\<rparr>
                else w)
      in if p_print_cost a \<and> epoch mod 10 = 0
         then w1\<lparr>stdout := stdout w1 @ [cost_nmf e U G R_all + cost_iva e Y W R_all]\<rparr>
         else w1)"

definition epoch_body :: "'g ext \<Rightarrow> env \<Rightarrow> args \<Rightarrow> nat \<Rightarrow> 'g world \<Rightarrow> error option \<times> 'g world" where
  "epoch_body x e a epoch w =
     (let w1 = report x e a epoch w;
          w2 = (nmf_sub_iter e ^^ p_n_nmf_sub_iter a) w1
      in case update_W x e w2 of
           (Some err, w3) \<Rightarrow> (Some err, w3)
         | (None, w3) \<Rightarrow> (None, rescale e (demix e w3)))"

section \<open>The routine\<close>

text \<open>What the routine returns: the address of \<^verbatim>\<open>Y\<close>, or those of \<^verbatim>\<open>Y, W, G, R_all\<close>.\<close>

datatype ret = RetY nat | RetFilters nat nat nat nat

text \<open>
  Lines 48-77 read the shapes, check the frame counts and create \<^verbatim>\<open>W\<close>, \<^verbatim>\<open>Y\<close>,
  \<^verbatim>\<open>P\<close> and \<^verbatim>\<open>R_all\<close>; the address of \<^verbatim>\<open>G\<close>, created at line 89, is reserved with
  them.  An error is returned with the world it leaves behind.
\<close>

definition mk_env :: "args \<Rightarrow> 'g world \<Rightarrow> env" where
  "mk_env a w =
     (let X = carr w (p_X a); U = rarr w (p_U a)
      in \<lparr>n_frames = length X, n_freq = length (X ! 0), n_chan = length (X ! 0 ! 0),
          n_blink = length (U ! 0),
          n_src = (case p_n_src a of None \<Rightarrow> length (X ! 0 ! 0) | Some k \<Rightarrow> k),
          sparse_reg = p_sparse_reg a,
          U_mean = map (map (\<lambda>u. u / real (length (X ! 0)) / 2)) U,
          aX = p_X a, aU = p_U a, aW = cfree w, aY = cfree w + 1,
          aP = rfree w, aR_all = rfree w + 1, aG = rfree w + 2\<rparr>)"

definition allocate :: "args \<Rightarrow> env \<Rightarrow> 'g world \<Rightarrow> 'g world" where
  "allocate a e w =
     w\<lparr>carr := (carr w)
          (aW e := (case p_W0 a of
                      None \<Rightarrow> tab3 (n_freq e) (n_chan e) (n_chan e) (\<lambda>f i j. if i = j then 1 else 0)
                    | Some a0 \<Rightarrow> carr w a0),
           aY e := tab3 (n_frames e) (n_freq e) (n_chan e) (\<lambda>n f c. 0)),
       rarr := (rarr w)
          (aP e := tab2 (n_frames e) (n_chan e) (\<lambda>n c. 0),
           aR_all e := tab2 (n_frames e) (n_chan e) (\<lambda>n c. 1)),
       cfree := cfree w + 2, rfree := rfree w + 3\<rparr>"

definition blinkiva_gauss :: "'g ext \<Rightarrow> args \<Rightarrow> 'g world \<Rightarrow> (error + ret) \<times> 'g world" where
  "blinkiva_gauss x a w =
     (if length (rarr w (p_U a)) \<noteq> length (carr w (p_X a)) then (Inl ValueError, w)
      else
       (let e = mk_env a w
        in case init_nmf x e (p_seed a) (allocate a e w) of
             (Some err, w1) \<Rightarrow> (Inl err, w1)
           | (None, w1) \<Rightarrow>
              (case for_each (epoch_body x e a) [0..<p_n_iter a] (demix e w1) of
                 (Some err, w2) \<Rightarrow> (Inl err, w2)
               | (None, w2) \<Rightarrow>
                  (let w3 = (if p_proj_back a
                             then w2\<lparr>carr := (carr w2)(aY e :=
                                      projected x (carr w2 (aY e)) (carr w2 (aX e)))\<rparr>
                             else w2)
                   in (Inr (if p_return_filters a
                            then RetFilters (aY e) (aW e) (aG e) (aR_all e)
                            else RetY (aY e)), w3)))))"

section \<open>The states of a call\<close>

text \<open>
  The states a call passes through, named so that properties of every epoch and of every
  factorization sub-iteration can be stated: the state in which the loop of line 125 is
  entered, the state in which epoch \<open>k\<close> starts, the state of epoch \<open>k\<close> after \<open>j\<close>
  sub-iterations, and the state of epoch \<open>k\<close> after the \<^verbatim>\<open>demix\<close> of line 189.
\<close>

definition loop_entry :: "'g ext \<Rightarrow> args \<Rightarrow> 'g world \<Rightarrow> 'g world" where
  "loop_entry x a w =
     demix (mk_env a w) (snd (init_nmf x (mk_env a w) (p_seed a) (allocate a (mk_env a w) w)))"

definition epoch_start :: "'g ext \<Rightarrow> args \<Rightarrow> 'g world \<Rightarrow> nat \<Rightarrow> 'g world" where
  "epoch_start x a w k = snd (for_each (epoch_body x (mk_env a w) a) [0..<k] (loop_entry x a w))"

definition sub_iterated :: "'g ext \<Rightarrow> args \<Rightarrow> 'g world \<Rightarrow> nat \<Rightarrow> nat \<Rightarrow> 'g world" where
  "sub_iterated x a w k j =
     (nmf_sub_iter (mk_env a w) ^^ j) (report x (mk_env a w) a k (epoch_start x a w k))"

definition demixed :: "'g ext \<Rightarrow> args \<Rightarrow> 'g world \<Rightarrow> nat \<Rightarrow> 'g world" where
  "demixed x a w k =
     demix (mk_env a w)
       (snd (update_W x (mk_env a w) (sub_iterated x a w k (p_n_nmf_sub_iter a))))"

text \<open>
  Every entry of \<^verbatim>\<open>R\<close> (the first \<^verbatim>\<open>n_src\<close> columns of \<^verbatim>\<open>R_all\<close>) and of \<^verbatim>\<open>G\<close> is
  positive, and no entry of \<^verbatim>\<open>R_all\<close> is negative.
\<close>

definition positive_factors :: "env \<Rightarrow> 'g world \<Rightarrow> bool" where
  "positive_factors e w \<longleftrightarrow>
     (\<forall>n<n_frames e. \<forall>s<n_src e. 0 < rarr w (aR_all e) ! n ! s)
     \<and> (\<forall>s<n_src e. \<forall>b<n_blink e. 0 < rarr w (aG e) ! s ! b)
     \<and> (\<forall>n<n_frames e. \<forall>c<n_chan e. 0 \<le> rarr w (aR_all e) ! n ! c)"

text \<open>No column of \<^verbatim>\<open>R_all\<close> sums to zero: the rescale divides by no zero.\<close>

definition no_dead_column :: "env \<Rightarrow> 'g world \<Rightarrow> bool" where
  "no_dead_column e w \<longleftrightarrow> (\<forall>c<n_chan e. (\<Sum>n<n_frames e. rarr w (aR_all e) ! n ! c) \<noteq> 0)"

text \<open>
  The invariant of the loop for the real arrays: they have their shapes, the factors are
  positive and no entry of \<^verbatim>\<open>P\<close> is negative.  \<open>env_ok\<close>: the three real buffers are
  distinct, there is a frame, and there are no more sources than channels.
\<close>

definition factor_inv :: "env \<Rightarrow> 'g world \<Rightarrow> bool" where
  "factor_inv e w \<longleftrightarrow>
     shape2 (rarr w (aR_all e)) (n_frames e) (n_chan e)
     \<and> shape2 (rarr w (aP e)) (n_frames e) (n_chan e)
     \<and> shape2 (rarr w (aG e)) (n_src e) (n_blink e)
     \<and> positive_factors e w
     \<and> (\<forall>n<n_frames e. \<forall>c<n_chan e. 0 \<le> rarr w (aP e) ! n ! c)"

definition env_ok :: "env \<Rightarrow> bool" where
  "env_ok e \<longleftrightarrow>
     aR_all e \<noteq> aP e \<and> aR_all e \<noteq> aG e \<and> aP e \<noteq> aG e \<and> 0 < n_frames e \<and> n_src e \<le> n_chan e"

section \<open>Concrete libraries and inputs\<close>

text \<open>
  A library for the examples: a generator whose state counts the draws and whose every
  draw is 1/2, and a solver for systems of one equation.
\<close>

definition solve1 :: "cmat \<Rightarrow> complex list \<Rightarrow> complex list option" where
  "solve1 A b =
     (case (A, b) of
        ([[a]], [y]) \<Rightarrow> if a = 0 then None else Some [y / a]
      | _ \<Rightarrow> None)"

definition lib1 :: "nat ext" where
  "lib1 = \<lparr>np_rand = (\<lambda>g m n. (tab2 m n (\<lambda>i j. 1 / 2), Suc g)),
           np_seed = (\<lambda>sd. nat \<bar>sd\<bar>),
           np_solve = solve1,
           projection_back = (\<lambda>Y X. tab2 (length (Y ! 0)) (length (Y ! 0 ! 0)) (\<lambda>f c. 1))\<rparr>"

text \<open>
  A caller's memory.  Complex arrays: at 0 one frame, one frequency, one channel; at 1 two
  frames of one channel; at 2 a demixing matrix for one channel; at 3 one frame of two
  channels; at 4 a silent frame followed by a loud one.  Real arrays: at 0 one frame of one
  sensor; at 1 two frames of one sensor, the first reading zero.
\<close>

definition world1 :: "nat world" where
  "world1 = \<lparr>carr = (\<lambda>a. if a = 0 then [[[1]]] else if a = 1 then [[[1]], [[1]]]
                        else if a = 2 then [[[\<i>]]] else if a = 3 then [[[1, 2]]]
                        else [[[0]], [[4]]]),
             rarr = (\<lambda>a. if a = 0 then [[2]] else [[0], [2]]),
             cfree = 5, rfree = 2, np_random = 7, stdout = [], cb_log = []\<rparr>"


definition args1 :: args where
  "args1 = \<lparr>p_X = 0, p_U = 0, p_n_src = None, p_sparse_reg = 0, p_n_iter = 11,
            p_n_nmf_sub_iter = 4, p_proj_back = False, p_W0 = None, p_seed = Some 3,
            p_print_cost = True, p_return_filters = True, p_callback = False\<rparr>"

text \<open>Two channels of which one is a source.\<close>

definition args2 :: args where
  "args2 = args1\<lparr>p_X := 3, p_n_src := Some 1\<rparr>"

text \<open>The caller supplies the demixing matrix at address 2.\<close>

definition args1W :: args where
  "args1W = args1\<lparr>p_W0 := Some 2\<rparr>"

text \<open>The same call with no epoch.\<close>

definition args2z :: args where
  "args2z = args2\<lparr>p_n_iter := 0\<rparr>"

text \<open>Two sources asked of one channel.\<close>

definition args9 :: args where
  "args9 = args1\<lparr>p_n_src := Some 2\<rparr>"



text \<open>
  The first example, \<^verbatim>\<open>X = [[[1]]]\<close> and \<^verbatim>\<open>U = [[2]]\<close>: one frame, one frequency, one
  channel, one sensor.  \<open>ex1_power\<close> is the denominator of line 167 when the activation
  is 1, \<open>ex1_weight\<close> the covariance of line 170.  \<open>steady1\<close> describes the arrays at the
  start of an epoch of that call, \<open>settled1\<close> those after a demixing update.
\<close>

definition ex1_power :: real where
  "ex1_power = 2 + 1 / 10 ^ 15"

definition ex1_weight :: complex where
  "ex1_weight = complex_of_real (1 / ex1_power)"

definition steady1 :: "nat world \<Rightarrow> bool" where
  "steady1 w \<longleftrightarrow>
     carr w 0 = [[[1]]] \<and> rarr w 0 = [[2]] \<and> rarr w 3 = [[1]]
     \<and> (\<exists>g>0. rarr w 4 = [[g]]) \<and> (\<exists>c. c \<noteq> 0 \<and> carr w 5 = [[[c]]])
     \<and> (\<exists>q\<ge>0. rarr w 2 = [[q]]) \<and> (\<exists>y. carr w 6 = [[[y]]])"

definition settled1 :: "nat world \<Rightarrow> bool" where
  "settled1 w \<longleftrightarrow>
     steady1 w \<and> cmod (carr w 5 ! 0 ! 0 ! 0) = sqrt ex1_power
     \<and> cmod (carr w 6 ! 0 ! 0 ! 0) = sqrt ex1_power"

section \<open>Tabulation and in-place maps\<close>

lemma length_tab [simp]: "length (tab n f) = n"
  by (simp add: tab_def)

lemma nth_tab [simp]: "i < n \<Longrightarrow> tab n f ! i = f i"
  by (simp add: tab_def)

lemma length_tab2 [simp]: "length (tab2 m n f) = m"
  by (simp add: tab2_def)

lemma nth_tab2 [simp]: "i < m \<Longrightarrow> tab2 m n f ! i = tab n (f i)"
  by (simp add: tab2_def)

lemma length_tab3 [simp]: "length (tab3 l m n f) = l"
  by (simp add: tab3_def)

lemma nth_tab3 [simp]: "i < l \<Longrightarrow> tab3 l m n f ! i = tab2 m n (f i)"
  by (simp add: tab3_def)

lemma length_imap [simp]: "length (imap f xs) = length xs"
  by (simp add: imap_def)

lemma nth_imap [simp]: "i < length xs \<Longrightarrow> imap f xs ! i = f i (xs ! i)"
  by (simp add: imap_def)

lemma length_imap2 [simp]: "length (imap2 f A) = length A"
  by (simp add: imap2_def)

lemma nth_imap2 [simp]: "i < length A \<Longrightarrow> imap2 f A ! i = imap (f i) (A ! i)"
  by (simp add: imap2_def)

lemma length_imap3 [simp]: "length (imap3 f A) = length A"
  by (simp add: imap3_def)

lemma nth_imap3 [simp]: "i < length A \<Longrightarrow> imap3 f A ! i = imap2 (f i) (A ! i)"
  by (simp add: imap3_def)

lemma shape2_nth: "shape2 A m n \<Longrightarrow> i < m \<Longrightarrow> length (A ! i) = n"
  by (simp add: shape2_def)

lemma shape2_length: "shape2 A m n \<Longrightarrow> length A = m"
  by (simp add: shape2_def)

lemma shape3_nth: "shape3 A l m n \<Longrightarrow> i < l \<Longrightarrow> shape2 (A ! i) m n"
  by (simp add: shape3_def)

lemma shape3_length: "shape3 A l m n \<Longrightarrow> length A = l"
  by (simp add: shape3_def)

lemma shape2_tab2 [simp]: "shape2 (tab2 m n f) m n"
  by (simp add: shape2_def)

lemma shape3_tab3 [simp]: "shape3 (tab3 l m n f) l m n"
  by (simp add: shape3_def)

lemma shape2_imap2 [simp]: "shape2 (imap2 f A) m n \<longleftrightarrow> shape2 A m n"
  by (auto simp: shape2_def)

lemma shape3_imap3 [simp]: "shape3 (imap3 f A) l m n \<longleftrightarrow> shape3 A l m n"
  by (auto simp: shape3_def)

lemma sum_lessThan_1: "(\<Sum>k<(1::nat). f k) = f 0"
  by simp

lemma sum_lessThan_2: "(\<Sum>k<(2::nat). f k) = f 0 + f 1"
  by (simp add: numeral_2_eq_2)

subsection \<open>Evaluation on explicit arrays\<close>

lemma imap_Nil: "imap f [] = []"
  by (simp add: imap_def)

lemma imap_Cons: "imap f (v # xs) = f 0 v # imap (\<lambda>i. f (Suc i)) xs"
proof -
  have "[0..<Suc (length xs)] = 0 # map Suc [0..<length xs]"
    by (simp add: upt_conv_Cons map_Suc_upt del: upt_Suc)
  then show ?thesis
    by (simp add: imap_def comp_def del: upt_Suc)
qed

lemma tab_0: "tab 0 f = []"
  by (simp add: tab_def)

lemma tab_Suc: "tab (Suc n) f = f 0 # tab n (\<lambda>i. f (Suc i))"
proof -
  have "[0..<Suc n] = 0 # map Suc [0..<n]"
    by (simp add: upt_conv_Cons map_Suc_upt del: upt_Suc)
  then show ?thesis
    by (simp add: tab_def comp_def del: upt_Suc)
qed

lemma tab_1: "tab 1 f = [f 0]"
  by (simp add: tab_def)

lemma tab_numeral: "tab (numeral k) f = f 0 # tab (pred_numeral k) (\<lambda>i. f (Suc i))"
  by (simp add: numeral_eq_Suc tab_Suc)

lemmas array_eval = imap_Nil imap_Cons tab_0 tab_Suc tab_1 tab_numeral
  imap2_def imap3_def tab2_def tab3_def


section \<open>What the statements leave alone\<close>

lemma for_each_obs:
  assumes "\<And>i w. obs (snd (body i w)) = obs w"
  shows "obs (snd (for_each body js w)) = obs w"
proof (induction js arbitrary: w)
  case Nil
  show ?case by simp
next
  case (Cons j js)
  obtain r w' where b: "body j w = (r, w')"
    by (cases "body j w")
  have "obs w' = obs w"
    using assms [of j w] b by simp
  then show ?case
    using b Cons.IH [of w'] by (cases r) simp_all
qed

lemma fold_obs:
  assumes "\<And>i w. obs (step i w) = obs w"
  shows "obs (fold step js w) = obs w"
  by (induction js arbitrary: w) (simp_all add: assms)

lemma funpow_obs:
  assumes "\<And>w. obs (step w) = obs w"
  shows "obs ((step ^^ k) w) = obs w"
  by (induction k) (simp_all add: assms)

subsection \<open>The complex arrays other than \<^verbatim>\<open>W\<close> and \<^verbatim>\<open>Y\<close>\<close>

lemma carr_demix_freq: "a \<noteq> aY e \<Longrightarrow> carr (demix_freq e f w) a = carr w a"
  by (simp add: demix_freq_def Let_def)

lemma carr_demix: "a \<noteq> aY e \<Longrightarrow> carr (demix e w) a = carr w a"
  by (simp add: demix_def Let_def fold_obs [where obs = "\<lambda>w. carr w a"] carr_demix_freq)

lemma carr_init_nmf: "carr (snd (init_nmf x e seed w)) a = carr w a"
  by (simp add: init_nmf_def Let_def split: prod.splits option.splits)

lemma carr_update_R: "carr (update_R e w) a = carr w a"
  by (simp add: update_R_def Let_def)

lemma carr_update_G: "carr (update_G e w) a = carr w a"
  by (simp add: update_G_def Let_def)

lemma carr_rescale: "a \<noteq> aW e \<Longrightarrow> carr (rescale e w) a = carr w a"
  by (simp add: rescale_def Let_def)

lemma carr_nmf_sub_iter: "a \<noteq> aW e \<Longrightarrow> carr (nmf_sub_iter e w) a = carr w a"
  by (simp add: nmf_sub_iter_def carr_rescale carr_update_G carr_update_R)

lemma carr_update_W_col: "a \<noteq> aW e \<Longrightarrow> carr (snd (update_W_col x e V s w)) a = carr w a"
  by (simp add: update_W_col_def Let_def split: option.splits)

lemma carr_update_W: "a \<noteq> aW e \<Longrightarrow> carr (snd (update_W x e w)) a = carr w a"
  by (simp add: update_W_def Let_def for_each_obs [where obs = "\<lambda>w. carr w a"] carr_update_W_col)

lemma carr_report: "carr (report x e a epoch w) b = carr w b"
  by (simp add: report_def Let_def)

lemma carr_epoch_body:
  assumes "b \<noteq> aW e" "b \<noteq> aY e"
  shows "carr (snd (epoch_body x e a epoch w)) b = carr w b"
proof -
  let ?w2 = "(nmf_sub_iter e ^^ p_n_nmf_sub_iter a) (report x e a epoch w)"
  have 1: "carr ?w2 b = carr w b"
    using assms
    by (simp add: funpow_obs [where obs = "\<lambda>w. carr w b"] carr_nmf_sub_iter carr_report)
  obtain r w3 where u: "update_W x e ?w2 = (r, w3)"
    by (cases "update_W x e ?w2")
  have 2: "carr w3 b = carr ?w2 b"
    using carr_update_W [OF assms(1), where x = x and w = ?w2] u by simp
  show ?thesis
    using 1 2 u assms by (cases r) (simp_all add: epoch_body_def Let_def carr_rescale carr_demix)
qed

subsection \<open>The ambient generator\<close>

lemma rng_demix_freq: "np_random (demix_freq e f w) = np_random w"
  by (simp add: demix_freq_def Let_def)

lemma rng_demix: "np_random (demix e w) = np_random w"
  by (simp add: demix_def Let_def fold_obs [where obs = np_random] rng_demix_freq)

lemma rng_nmf_sub_iter: "np_random (nmf_sub_iter e w) = np_random w"
  by (simp add: nmf_sub_iter_def rescale_def update_G_def update_R_def Let_def)

lemma rng_rescale: "np_random (rescale e w) = np_random w"
  by (simp add: rescale_def Let_def)

lemma rng_update_W_col: "np_random (snd (update_W_col x e V s w)) = np_random w"
  by (simp add: update_W_col_def Let_def split: option.splits)

lemma rng_update_W: "np_random (snd (update_W x e w)) = np_random w"
  by (simp add: update_W_def Let_def for_each_obs [where obs = np_random] rng_update_W_col)

lemma rng_report: "np_random (report x e a epoch w) = np_random w"
  by (simp add: report_def Let_def)

lemma rng_epoch_body: "np_random (snd (epoch_body x e a epoch w)) = np_random w"
proof -
  let ?w2 = "(nmf_sub_iter e ^^ p_n_nmf_sub_iter a) (report x e a epoch w)"
  have 1: "np_random ?w2 = np_random w"
    by (simp add: funpow_obs [where obs = np_random] rng_nmf_sub_iter rng_report)
  obtain r w3 where u: "update_W x e ?w2 = (r, w3)"
    by (cases "update_W x e ?w2")
  have 2: "np_random w3 = np_random ?w2"
    using rng_update_W [of x e ?w2] u by simp
  show ?thesis
    using 1 2 u by (cases r) (simp_all add: epoch_body_def Let_def rng_rescale rng_demix)
qed

lemma rng_init_nmf_seeded:
  "n_src e \<le> n_chan e \<Longrightarrow> np_random (snd (init_nmf x e (Some sd) w)) = np_random w"
  by (simp add: init_nmf_def Let_def split: prod.splits)

section \<open>What the demixer writes\<close>

lemma imap_imap: "imap f (imap g xs) = imap (\<lambda>i v. f i (g i v)) xs"
  by (auto simp: imap_def)

lemma imap2_imap2: "imap2 f (imap2 g A) = imap2 (\<lambda>i j v. f i j (g i j v)) A"
  by (simp add: imap2_def imap_imap)

lemma imap3_imap3: "imap3 f (imap3 g A) = imap3 (\<lambda>i j k v. f i j k (g i j k v)) A"
  by (simp add: imap3_def imap2_imap2 imap_imap)

lemma imap3_id: "imap3 (\<lambda>i j k v. v) A = A"
  by (simp add: imap3_def imap2_def imap_def map_nth)

lemma carr_demix_freq_Y:
  "carr (demix_freq e f w) (aY e) =
     imap3 (\<lambda>n f' c y. if f' = f then (\<Sum>k<n_chan e. carr w (aX e) ! n ! f ! k * cnj (carr w (aW e) ! f ! k ! c)) else y)
       (carr w (aY e))"
  by (simp add: demix_freq_def Let_def)

lemma fold_demix_freq_Y:
  assumes "aY e \<noteq> aX e" "aY e \<noteq> aW e"
  shows "carr (fold (demix_freq e) [0..<m] w) (aY e) =
         imap3 (\<lambda>n f c y. if f < m then (\<Sum>k<n_chan e. carr w (aX e) ! n ! f ! k * cnj (carr w (aW e) ! f ! k ! c)) else y)
           (carr w (aY e))"
proof (induction m)
  case 0
  show ?case by (simp add: imap3_id)
next
  case (Suc m)
  let ?w = "fold (demix_freq e) [0..<m] w"
  have X: "carr ?w (aX e) = carr w (aX e)"
    using assms(1) by (simp add: fold_obs [where obs = "\<lambda>w. carr w (aX e)"] carr_demix_freq)
  have W: "carr ?w (aW e) = carr w (aW e)"
    using assms(2) by (simp add: fold_obs [where obs = "\<lambda>w. carr w (aW e)"] carr_demix_freq)
  have "(\<lambda>n f c y. if f = m then (\<Sum>k<n_chan e. carr w (aX e) ! n ! m ! k * cnj (carr w (aW e) ! m ! k ! c))
            else if f < m then (\<Sum>k<n_chan e. carr w (aX e) ! n ! f ! k * cnj (carr w (aW e) ! f ! k ! c)) else y)
      = (\<lambda>n f c y. if f < Suc m then (\<Sum>k<n_chan e. carr w (aX e) ! n ! f ! k * cnj (carr w (aW e) ! f ! k ! c)) else y)"
    by (intro ext) (auto simp: less_Suc_eq)
  then show ?case
    using Suc X W by (simp add: carr_demix_freq_Y imap3_imap3)
qed

lemma rarr_demix_freq: "rarr (demix_freq e f w) a = rarr w a"
  by (simp add: demix_freq_def Let_def)

lemma rarr_fold_demix_freq: "rarr (fold (demix_freq e) js w) a = rarr w a"
  by (simp add: fold_obs [where obs = "\<lambda>w. rarr w a"] rarr_demix_freq)

lemma demix_Y:
  assumes "aY e \<noteq> aX e" "aY e \<noteq> aW e"
  shows "carr (demix e w) (aY e) =
         imap3 (\<lambda>n f c y. if f < n_freq e
                  then (\<Sum>k<n_chan e. carr w (aX e) ! n ! f ! k * cnj (carr w (aW e) ! f ! k ! c)) else y)
           (carr w (aY e))"
  using fold_demix_freq_Y [OF assms] by (simp add: demix_def Let_def)

lemma demix_P:
  assumes "aP e \<noteq> aR_all e"
  shows "rarr (demix e w) (aP e) =
         imap2 (\<lambda>n c p. norm_sq e (carr (demix e w) (aY e)) n c / real (n_freq e)) (rarr w (aP e))"
  using assms by (simp add: demix_def Let_def rarr_fold_demix_freq cong: if_cong)

lemma demix_R_all:
  assumes "aP e \<noteq> aR_all e"
  shows "rarr (demix e w) (aR_all e) =
         imap2 (\<lambda>n c r. if n_src e \<le> c then rarr (demix e w) (aP e) ! n ! c else r) (rarr w (aR_all e))"
  using assms by (simp add: demix_def Let_def rarr_fold_demix_freq cong: if_cong)

lemma norm_sq_eq: "norm_sq e Y n c = (\<Sum>f<n_freq e. (cmod (Y ! n ! f ! c))\<^sup>2)"
  by (simp add: norm_sq_def sum_nonneg)

section \<open>What the rescale writes\<close>

lemma rescale_R_all:
  assumes "aR_all e \<noteq> aP e" "aR_all e \<noteq> aG e"
  shows "rarr (rescale e w) (aR_all e) =
         imap2 (\<lambda>n c r. r * lmb_of e (rarr w (aR_all e)) ! c) (rarr w (aR_all e))"
  using assms by (simp add: rescale_def Let_def)

lemma rescale_P:
  assumes "aR_all e \<noteq> aP e" "aP e \<noteq> aG e"
  shows "rarr (rescale e w) (aP e) =
         imap2 (\<lambda>n c p. p * lmb_of e (rarr w (aR_all e)) ! c) (rarr w (aP e))"
  using assms by (simp add: rescale_def Let_def)

lemma rescale_W:
  "carr (rescale e w) (aW e) =
     imap3 (\<lambda>f i j v. v * complex_of_real (sqrt (lmb_of e (rarr w (aR_all e)) ! j))) (carr w (aW e))"
  by (simp add: rescale_def Let_def)

lemma rescale_G:
  assumes "aR_all e \<noteq> aG e" "aP e \<noteq> aG e"
  shows "rarr (rescale e w) (aG e) =
         imap2 (\<lambda>s b g. g / take (n_src e) (lmb_of e (rarr w (aR_all e))) ! s) (rarr w (aG e))"
  using assms by (simp add: rescale_def Let_def)


section \<open>What the demixing-matrix solver writes\<close>


lemma those_Some_nth:
  "those xs = Some ys \<Longrightarrow> length ys = length xs \<and> (\<forall>i<length xs. xs ! i = Some (ys ! i))"
proof (induction xs arbitrary: ys)
  case Nil
  then show ?case by simp
next
  case (Cons v xs)
  then obtain y zs where v: "v = Some y" and t: "those xs = Some zs" and ys: "ys = y # zs"
    by (auto split: option.splits)
  show ?case
    using Cons.IH [OF t] v ys by (auto simp: nth_Cons split: nat.splits)
qed

lemma solve_active_Some:
  assumes "solve_active x e W V s = Some sol" and "f < n_freq e" and "I_up V s f"
  shows "np_solve x (WV_of e W V s f) (unit_vec e s) = Some (sol ! f)"
  using those_Some_nth [OF assms(1) [unfolded solve_active_def]] assms(2,3) by auto

lemma solve_active_length:
  "solve_active x e W V s = Some sol \<Longrightarrow> length sol = n_freq e"
  using those_Some_nth [of _ sol] by (fastforce simp: solve_active_def)

lemma update_W_col_W:
  assumes "solve_active x e (carr w (aW e)) V s = Some sol"
  shows "carr (snd (update_W_col x e V s w)) (aW e) =
         imap3 (\<lambda>f i j v. if I_up V s f \<and> j = s
                  then sol ! f ! i / csqrt (quad_form e (imap3 (\<lambda>f i j v. if I_up V s f \<and> j = s then sol ! f ! i else v) (carr w (aW e))) V s f)
                  else v) (carr w (aW e))"
  using assms by (simp add: update_W_col_def Let_def imap3_imap3 cong: if_cong)

lemma update_W_col_None:
  "update_W_col x e V s w = (None, w') \<Longrightarrow> \<exists>sol. solve_active x e (carr w (aW e)) V s = Some sol"
  by (auto simp: update_W_col_def Let_def split: option.splits)

lemma update_W_col_column:
  assumes "shape3 (carr w (aW e)) (n_freq e) (n_chan e) (n_chan e)"
    and "s < n_chan e" and "f < n_freq e" and "I_up V s f"
    and "solve_active x e (carr w (aW e)) V s = Some sol"
  shows "\<forall>i<n_chan e. carr (snd (update_W_col x e V s w)) (aW e) ! f ! i ! s
          = sol ! f ! i / csqrt (\<Sum>i<n_chan e. cnj (sol ! f ! i) * (\<Sum>j<n_chan e. V ! f ! s ! i ! j * sol ! f ! j))"
proof -
  let ?W1 = "imap3 (\<lambda>f i j v. if I_up V s f \<and> j = s then sol ! f ! i else v) (carr w (aW e))"
  have len: "length (carr w (aW e)) = n_freq e" "length (carr w (aW e) ! f) = n_chan e"
    "\<And>i. i < n_chan e \<Longrightarrow> length (carr w (aW e) ! f ! i) = n_chan e"
    using assms(1,3) by (simp_all add: shape3_def shape2_def)
  have col: "\<And>i. i < n_chan e \<Longrightarrow> ?W1 ! f ! i ! s = sol ! f ! i"
    using assms(2,3,4) len by simp
  have q: "quad_form e ?W1 V s f
           = (\<Sum>i<n_chan e. cnj (sol ! f ! i) * (\<Sum>j<n_chan e. V ! f ! s ! i ! j * sol ! f ! j))"
    unfolding quad_form_def using col by (intro sum.cong refl) simp
  show ?thesis
    using update_W_col_W [OF assms(5)] assms(2,3,4) len q by simp
qed

lemma quad_as_mean:
  fixes x :: "nat \<Rightarrow> nat \<Rightarrow> complex" and d :: "nat \<Rightarrow> real" and v :: "nat \<Rightarrow> complex"
  shows "(\<Sum>i<C. cnj (v i) * (\<Sum>j<C. ((\<Sum>n<N. x n i / complex_of_real (d n) * cnj (x n j)) / of_nat N) * v j))
         = complex_of_real ((\<Sum>n<N. (cmod (\<Sum>j<C. cnj (x n j) * v j))\<^sup>2 / d n) / real N)"
proof -
  let ?a = "\<lambda>n. \<Sum>j<C. cnj (x n j) * v j"
  have 1: "(\<Sum>i<C. cnj (v i) * (\<Sum>j<C. ((\<Sum>n<N. x n i / complex_of_real (d n) * cnj (x n j)) / of_nat N) * v j))
      = (\<Sum>i<C. \<Sum>j<C. \<Sum>n<N. (cnj (v i) * x n i) * (cnj (x n j) * v j) / complex_of_real (d n) / of_nat N)"
    by (simp add: sum_distrib_left sum_distrib_right sum_divide_distrib mult_ac)
  have 2: "(\<Sum>i<C. \<Sum>j<C. \<Sum>n<N. (cnj (v i) * x n i) * (cnj (x n j) * v j) / complex_of_real (d n) / of_nat N)
      = (\<Sum>n<N. \<Sum>i<C. \<Sum>j<C. (cnj (v i) * x n i) * (cnj (x n j) * v j) / complex_of_real (d n) / of_nat N)"
  proof -
    have "(\<Sum>i<C. \<Sum>j<C. \<Sum>n<N. (cnj (v i) * x n i) * (cnj (x n j) * v j) / complex_of_real (d n) / of_nat N)
        = (\<Sum>i<C. \<Sum>n<N. \<Sum>j<C. (cnj (v i) * x n i) * (cnj (x n j) * v j) / complex_of_real (d n) / of_nat N)"
      by (intro sum.cong refl sum.swap)
    also have "\<dots> = (\<Sum>n<N. \<Sum>i<C. \<Sum>j<C. (cnj (v i) * x n i) * (cnj (x n j) * v j) / complex_of_real (d n) / of_nat N)"
      by (rule sum.swap)
    finally show ?thesis .
  qed
  have 3: "\<And>n. (\<Sum>i<C. \<Sum>j<C. (cnj (v i) * x n i) * (cnj (x n j) * v j) / complex_of_real (d n) / of_nat N)
      = (\<Sum>i<C. cnj (v i) * x n i) * ?a n / complex_of_real (d n) / of_nat N"
    by (simp add: sum_product sum_divide_distrib)
  have 4: "\<And>n. (\<Sum>i<C. cnj (v i) * x n i) = cnj (?a n)"
    by (simp add: mult.commute)
  have 5: "\<And>n. cnj (?a n) * ?a n = complex_of_real ((cmod (?a n))\<^sup>2)"
    by (metis complex_norm_square mult.commute)
  have "(\<Sum>n<N. \<Sum>i<C. \<Sum>j<C. (cnj (v i) * x n i) * (cnj (x n j) * v j) / complex_of_real (d n) / of_nat N)
      = (\<Sum>n<N. complex_of_real ((cmod (?a n))\<^sup>2 / d n / real N))"
    by (intro sum.cong refl) (simp only: 3 4 5 of_real_divide of_real_of_nat_eq)
  also have "\<dots> = complex_of_real ((\<Sum>n<N. (cmod (?a n))\<^sup>2 / d n) / real N)"
    by (simp add: sum_divide_distrib)
  finally show ?thesis
    using 1 2 by simp
qed

text \<open>If every frame is orthogonal to \<open>v\<close>, the covariance maps \<open>v\<close> to zero.\<close>

lemma cov_times_vec:
  fixes x :: "nat \<Rightarrow> nat \<Rightarrow> complex" and d :: "nat \<Rightarrow> real" and v :: "nat \<Rightarrow> complex"
  assumes "\<forall>n<N. (\<Sum>j<C. cnj (x n j) * v j) = 0"
  shows "(\<Sum>j<C. ((\<Sum>n<N. x n i / complex_of_real (d n) * cnj (x n j)) / of_nat N) * v j) = 0"
proof -
  have "(\<Sum>j<C. ((\<Sum>n<N. x n i / complex_of_real (d n) * cnj (x n j)) / of_nat N) * v j)
      = (\<Sum>j<C. \<Sum>n<N. x n i / complex_of_real (d n) * (cnj (x n j) * v j) / of_nat N)"
    by (simp add: sum_distrib_left sum_distrib_right sum_divide_distrib mult_ac)
  also have "\<dots> = (\<Sum>n<N. \<Sum>j<C. x n i / complex_of_real (d n) * (cnj (x n j) * v j) / of_nat N)"
    by (rule sum.swap)
  also have "\<dots> = (\<Sum>n<N. x n i / complex_of_real (d n) * (\<Sum>j<C. cnj (x n j) * v j) / of_nat N)"
    by (simp add: sum_distrib_left sum_divide_distrib)
  also have "\<dots> = 0"
    using assms by simp
  finally show ?thesis .
qed

lemma mean_pos:
  fixes a :: "nat \<Rightarrow> complex" and d :: "nat \<Rightarrow> real"
  assumes "\<forall>n<N. 0 < d n" and "m < N" and "a m \<noteq> 0"
  shows "0 < (\<Sum>n<N. (cmod (a n))\<^sup>2 / d n) / real N"
proof -
  have nn: "\<And>n. n \<in> {..<N} \<Longrightarrow> 0 \<le> (cmod (a n))\<^sup>2 / d n"
    using assms(1) by (simp add: less_imp_le)
  have "0 < (cmod (a m))\<^sup>2 / d m"
    using assms by simp
  also have "\<dots> \<le> (\<Sum>n<N. (cmod (a n))\<^sup>2 / d n)"
    using assms(2) nn by (intro member_le_sum) simp_all
  finally show ?thesis
    using assms(2) by simp
qed

lemma aux_V_nth:
  assumes "f < n_freq e" "s < n_chan e" "i < n_chan e" "j < n_chan e"
  shows "aux_V e X R_all ! f ! s ! i ! j =
         (\<Sum>n<n_frames e. X ! n ! f ! i / complex_of_real (1 / 10 ^ 15 + 2 * R_all ! n ! s)
                             * cnj (X ! n ! f ! j)) / of_nat (n_frames e)"
  using assms by (simp add: aux_V_def)

lemma WV_of_nth:
  assumes "i < n_chan e" "j < n_chan e"
  shows "WV_of e W V s f ! i ! j = (\<Sum>k<n_chan e. cnj (W ! f ! k ! i) * V ! f ! s ! k ! j)"
  using assms by (simp add: WV_of_def)

section \<open>What the factorization updater writes\<close>

lemma update_R_R_all:
  "rarr (update_R e w) (aR_all e) =
     imap2 (\<lambda>n c r. if c < n_src e
                then (if r * R_factor e (rarr w (aP e)) (rarr w (aR_all e)) (rarr w (aG e)) n c < machine_epsilon
                      then machine_epsilon
                      else r * R_factor e (rarr w (aP e)) (rarr w (aR_all e)) (rarr w (aG e)) n c)
                else r) (rarr w (aR_all e))"
proof -
  have "(\<lambda>n c r. if c < n_src e \<and> (if c < n_src e
                then r * R_factor e (rarr w (aP e)) (rarr w (aR_all e)) (rarr w (aG e)) n c else r)
                  < machine_epsilon
            then machine_epsilon
            else if c < n_src e
                 then r * R_factor e (rarr w (aP e)) (rarr w (aR_all e)) (rarr w (aG e)) n c else r)
      = (\<lambda>n c r. if c < n_src e
                then (if r * R_factor e (rarr w (aP e)) (rarr w (aR_all e)) (rarr w (aG e)) n c < machine_epsilon
                      then machine_epsilon
                      else r * R_factor e (rarr w (aP e)) (rarr w (aR_all e)) (rarr w (aG e)) n c)
                else r)"
    by (intro ext) auto
  then show ?thesis
    by (simp add: update_R_def Let_def imap2_imap2 cong: if_cong)
qed

lemma update_R_other: "a \<noteq> aR_all e \<Longrightarrow> rarr (update_R e w) a = rarr w a"
  by (simp add: update_R_def Let_def)

lemma update_G_G:
  "rarr (update_G e w) (aG e) =
     imap2 (\<lambda>s b g. if g * G_factor e (rarr w (aR_all e)) (rarr w (aG e)) s b < machine_epsilon
                then machine_epsilon
                else g * G_factor e (rarr w (aR_all e)) (rarr w (aG e)) s b) (rarr w (aG e))"
  by (simp add: update_G_def Let_def imap2_imap2 cong: if_cong)

lemma update_G_other: "a \<noteq> aG e \<Longrightarrow> rarr (update_G e w) a = rarr w a"
  by (simp add: update_G_def Let_def)

lemma machine_epsilon_pos: "0 < machine_epsilon"
  by (simp add: machine_epsilon_def)




lemma rarr_demix_other:
  "a \<noteq> aP e \<Longrightarrow> a \<noteq> aR_all e \<Longrightarrow> rarr (demix e w) a = rarr w a"
  by (simp add: demix_def Let_def rarr_fold_demix_freq)

lemma fst_update_W_col:
  "fst (update_W_col x e V s w) =
     (case solve_active x e (carr w (aW e)) V s of None \<Rightarrow> Some LinAlgError | Some sol \<Rightarrow> None)"
  by (simp add: update_W_col_def Let_def split: option.splits)



section \<open>Shapes of the buffers\<close>

lemma shape3_demix_freq:
  "shape3 (carr (demix_freq e f w) a) l m n \<longleftrightarrow> shape3 (carr w a) l m n"
  by (simp add: demix_freq_def Let_def)

lemma shape3_demix: "shape3 (carr (demix e w) a) l m n \<longleftrightarrow> shape3 (carr w a) l m n"
  by (simp add: demix_def Let_def fold_obs [where obs = "\<lambda>w. shape3 (carr w a) l m n"]
      shape3_demix_freq)

lemma shape3_rescale: "shape3 (carr (rescale e w) a) l m n \<longleftrightarrow> shape3 (carr w a) l m n"
  by (simp add: rescale_def Let_def)

lemma shape3_nmf_sub_iter:
  "shape3 (carr (nmf_sub_iter e w) a) l m n \<longleftrightarrow> shape3 (carr w a) l m n"
  by (simp add: nmf_sub_iter_def shape3_rescale carr_update_G carr_update_R)

lemma shape3_update_W_col:
  "shape3 (carr (snd (update_W_col x e V s w)) a) l m n \<longleftrightarrow> shape3 (carr w a) l m n"
  by (simp add: update_W_col_def Let_def split: option.splits)

lemma shape3_update_W:
  "shape3 (carr (snd (update_W x e w)) a) l m n \<longleftrightarrow> shape3 (carr w a) l m n"
  by (simp add: update_W_def Let_def
      for_each_obs [where obs = "\<lambda>w. shape3 (carr w a) l m n"] shape3_update_W_col)

lemma shape3_epoch_body:
  "shape3 (carr (snd (epoch_body x e a epoch w)) b) l m n \<longleftrightarrow> shape3 (carr w b) l m n"
proof -
  let ?w2 = "(nmf_sub_iter e ^^ p_n_nmf_sub_iter a) (report x e a epoch w)"
  have 1: "shape3 (carr ?w2 b) l m n \<longleftrightarrow> shape3 (carr w b) l m n"
    by (simp add: funpow_obs [where obs = "\<lambda>w. shape3 (carr w b) l m n"] shape3_nmf_sub_iter
        carr_report)
  obtain r w3 where u: "update_W x e ?w2 = (r, w3)"
    by (cases "update_W x e ?w2")
  have 2: "shape3 (carr w3 b) l m n \<longleftrightarrow> shape3 (carr ?w2 b) l m n"
    using shape3_update_W [of x e ?w2 b l m n] u by simp
  show ?thesis
    using 1 2 u by (cases r) (simp_all add: epoch_body_def Let_def shape3_rescale shape3_demix)
qed

lemma shape3_epochs:
  "shape3 (carr (snd (for_each (epoch_body x e a) js w)) b) l m n \<longleftrightarrow> shape3 (carr w b) l m n"
  by (simp add: for_each_obs [where obs = "\<lambda>w. shape3 (carr w b) l m n"] shape3_epoch_body)

lemma shape3_projected: "shape3 (projected x Y X) l m n \<longleftrightarrow> shape3 Y l m n"
  by (simp add: projected_def Let_def)

text \<open>Every call that returns, returns a \<^verbatim>\<open>Y\<close> with one column per channel.\<close>

lemma returned_Y_shape:
  assumes "blinkiva_gauss x a w = (Inr r, w')"
  shows "shape3 (carr w' (aY (mk_env a w)))
           (n_frames (mk_env a w)) (n_freq (mk_env a w)) (n_chan (mk_env a w))
         \<and> (r = RetY (aY (mk_env a w))
            \<or> r = RetFilters (aY (mk_env a w)) (aW (mk_env a w)) (aG (mk_env a w)) (aR_all (mk_env a w)))"
proof -
  let ?e = "mk_env a w"
  let ?w0 = "allocate a ?e w"
  let ?S = "\<lambda>w. shape3 (carr w (aY ?e)) (n_frames ?e) (n_freq ?e) (n_chan ?e)"
  have eq: "length (rarr w (p_U a)) = length (carr w (p_X a))"
    using assms by (auto simp: blinkiva_gauss_def split: if_splits)
  have 0: "?S ?w0"
    by (simp add: allocate_def)
  obtain r1 w1 where i: "init_nmf x ?e (p_seed a) ?w0 = (r1, w1)"
    by (cases "init_nmf x ?e (p_seed a) ?w0")
  have 1: "?S w1"
    using carr_init_nmf [of x ?e "p_seed a" ?w0 "aY ?e"] i 0 by simp
  obtain r2 w2 where l: "for_each (epoch_body x ?e a) [0..<p_n_iter a] (demix ?e w1) = (r2, w2)"
    by (cases "for_each (epoch_body x ?e a) [0..<p_n_iter a] (demix ?e w1)")
  have 2: "?S w2"
    using shape3_epochs [of x ?e a "[0..<p_n_iter a]" "demix ?e w1" "aY ?e"] l 1
    by (simp add: shape3_demix)
  have r1: "r1 = None" and r2: "r2 = None"
    using assms eq i l by (auto simp: blinkiva_gauss_def Let_def split: option.splits)
  show ?thesis
    using assms eq i l r1 r2 2
    by (auto simp: blinkiva_gauss_def Let_def shape3_projected split: if_splits)
qed

lemma shape2_demix: "shape2 (rarr (demix e w) a) m n \<longleftrightarrow> shape2 (rarr w a) m n"
  by (simp add: demix_def Let_def rarr_fold_demix_freq)

lemma shape2_update_R: "shape2 (rarr (update_R e w) a) m n \<longleftrightarrow> shape2 (rarr w a) m n"
  by (simp add: update_R_def Let_def)

lemma shape2_update_G: "shape2 (rarr (update_G e w) a) m n \<longleftrightarrow> shape2 (rarr w a) m n"
  by (simp add: update_G_def Let_def)

lemma shape2_rescale: "shape2 (rarr (rescale e w) a) m n \<longleftrightarrow> shape2 (rarr w a) m n"
  by (simp add: rescale_def Let_def)

lemma shape2_nmf_sub_iter:
  "shape2 (rarr (nmf_sub_iter e w) a) m n \<longleftrightarrow> shape2 (rarr w a) m n"
  by (simp add: nmf_sub_iter_def shape2_rescale shape2_update_G shape2_update_R)

lemma rarr_update_W_col: "rarr (snd (update_W_col x e V s w)) a = rarr w a"
  by (simp add: update_W_col_def Let_def split: option.splits)

lemma rarr_update_W: "rarr (snd (update_W x e w)) a = rarr w a"
  by (simp add: update_W_def Let_def for_each_obs [where obs = "\<lambda>w. rarr w a"] rarr_update_W_col)

lemma rarr_report: "rarr (report x e a epoch w) b = rarr w b"
  by (simp add: report_def Let_def)

lemma shape2_epoch_body:
  "shape2 (rarr (snd (epoch_body x e a epoch w)) b) m n \<longleftrightarrow> shape2 (rarr w b) m n"
proof -
  let ?w2 = "(nmf_sub_iter e ^^ p_n_nmf_sub_iter a) (report x e a epoch w)"
  have 1: "shape2 (rarr ?w2 b) m n \<longleftrightarrow> shape2 (rarr w b) m n"
    by (simp add: funpow_obs [where obs = "\<lambda>w. shape2 (rarr w b) m n"] shape2_nmf_sub_iter
        rarr_report)
  obtain r w3 where u: "update_W x e ?w2 = (r, w3)"
    by (cases "update_W x e ?w2")
  have 2: "rarr w3 b = rarr ?w2 b"
    using rarr_update_W [of x e ?w2 b] u by simp
  show ?thesis
    using 1 2 u by (cases r) (simp_all add: epoch_body_def Let_def shape2_rescale shape2_demix)
qed

lemma shape2_epochs:
  "shape2 (rarr (snd (for_each (epoch_body x e a) js w)) b) m n \<longleftrightarrow> shape2 (rarr w b) m n"
  by (simp add: for_each_obs [where obs = "\<lambda>w. shape2 (rarr w b) m n"] shape2_epoch_body)

lemma shape2_map_map: "shape2 (map (map f) A) m n \<longleftrightarrow> shape2 A m n"
  by (auto simp: shape2_def)

lemma shape2_init_nmf_G:
  assumes "\<forall>g. shape2 (fst (np_rand x g (n_src e) (n_blink e))) (n_src e) (n_blink e)"
    and "init_nmf x e seed w = (None, w')"
  shows "shape2 (rarr w' (aG e)) (n_src e) (n_blink e)"
proof -
  have *: "\<And>g r2 g2. np_rand x g (n_src e) (n_blink e) = (r2, g2) \<Longrightarrow> shape2 r2 (n_src e) (n_blink e)"
    using assms(1) by (metis fst_conv)
  show ?thesis
    using assms(2) *
    by (auto simp: init_nmf_def Let_def shape2_map_map split: prod.splits option.splits if_splits)
qed

lemma shape2_init_nmf:
  assumes "a \<noteq> aG e"
  shows "shape2 (rarr (snd (init_nmf x e seed w)) a) m n \<longleftrightarrow> shape2 (rarr w a) m n"
  using assms
  by (auto simp: init_nmf_def Let_def split: prod.splits option.splits if_splits)

lemma mk_env_addresses:
  "aW (mk_env a w) = cfree w" "aY (mk_env a w) = cfree w + 1"
  "aP (mk_env a w) = rfree w" "aR_all (mk_env a w) = rfree w + 1" "aG (mk_env a w) = rfree w + 2"
  "aX (mk_env a w) = p_X a" "aU (mk_env a w) = p_U a"
  by (simp_all add: mk_env_def Let_def)

text \<open>
  Every call that returns leaves \<^verbatim>\<open>W\<close>, \<^verbatim>\<open>G\<close> and \<^verbatim>\<open>R_all\<close> with the shapes
  (frequencies, channels, channels), (\<^verbatim>\<open>n_src\<close>, sensors) and (frames, channels), when a
  supplied \<^verbatim>\<open>W0\<close> has the shape of \<^verbatim>\<open>W\<close> and \<^verbatim>\<open>np.random.rand\<close> returns the shape
  it is asked for.
\<close>

lemma returned_filter_shapes:
  assumes "blinkiva_gauss x a w = (Inr r, w')"
    and "\<forall>g. shape2 (fst (np_rand x g (n_src (mk_env a w)) (n_blink (mk_env a w))))
               (n_src (mk_env a w)) (n_blink (mk_env a w))"
    and "\<forall>a0. p_W0 a = Some a0 \<longrightarrow>
           shape3 (carr w a0) (n_freq (mk_env a w)) (n_chan (mk_env a w)) (n_chan (mk_env a w))"
  shows "shape3 (carr w' (aW (mk_env a w))) (n_freq (mk_env a w)) (n_chan (mk_env a w)) (n_chan (mk_env a w))
       \<and> shape2 (rarr w' (aG (mk_env a w))) (n_src (mk_env a w)) (n_blink (mk_env a w))
       \<and> shape2 (rarr w' (aR_all (mk_env a w))) (n_frames (mk_env a w)) (n_chan (mk_env a w))"
proof -
  let ?e = "mk_env a w"
  let ?w0 = "allocate a ?e w"
  have eq: "length (rarr w (p_U a)) = length (carr w (p_X a))"
    using assms(1) by (auto simp: blinkiva_gauss_def split: if_splits)
  have W0: "shape3 (carr ?w0 (aW ?e)) (n_freq ?e) (n_chan ?e) (n_chan ?e)"
    using assms(3) by (cases "p_W0 a") (simp_all add: allocate_def mk_env_addresses)
  have R0: "shape2 (rarr ?w0 (aR_all ?e)) (n_frames ?e) (n_chan ?e)"
    by (simp add: allocate_def)
  obtain r1 w1 where i: "init_nmf x ?e (p_seed a) ?w0 = (r1, w1)"
    by (cases "init_nmf x ?e (p_seed a) ?w0")
  obtain r2 w2 where l: "for_each (epoch_body x ?e a) [0..<p_n_iter a] (demix ?e w1) = (r2, w2)"
    by (cases "for_each (epoch_body x ?e a) [0..<p_n_iter a] (demix ?e w1)")
  have r1: "r1 = None" and r2: "r2 = None"
    using assms(1) eq i l by (auto simp: blinkiva_gauss_def Let_def split: option.splits)
  have W1: "shape3 (carr w1 (aW ?e)) (n_freq ?e) (n_chan ?e) (n_chan ?e)"
    using carr_init_nmf [of x ?e "p_seed a" ?w0 "aW ?e"] i W0 by simp
  have R1: "shape2 (rarr w1 (aR_all ?e)) (n_frames ?e) (n_chan ?e)"
    using shape2_init_nmf [of "aR_all ?e" ?e x "p_seed a" ?w0 "n_frames ?e" "n_chan ?e"] i R0
    by (simp add: mk_env_addresses)
  have G1: "shape2 (rarr w1 (aG ?e)) (n_src ?e) (n_blink ?e)"
    using shape2_init_nmf_G [OF assms(2)] i r1 by simp
  have W2: "shape3 (carr w2 (aW ?e)) (n_freq ?e) (n_chan ?e) (n_chan ?e)"
    using shape3_epochs [of x ?e a "[0..<p_n_iter a]" "demix ?e w1" "aW ?e"] l W1
    by (simp add: shape3_demix)
  have R2: "shape2 (rarr w2 (aR_all ?e)) (n_frames ?e) (n_chan ?e)"
    using shape2_epochs [of x ?e a "[0..<p_n_iter a]" "demix ?e w1" "aR_all ?e"] l R1
    by (simp add: shape2_demix)
  have G2: "shape2 (rarr w2 (aG ?e)) (n_src ?e) (n_blink ?e)"
    using shape2_epochs [of x ?e a "[0..<p_n_iter a]" "demix ?e w1" "aG ?e"] l G1
    by (simp add: shape2_demix)
  have "w' = (if p_proj_back a
              then w2\<lparr>carr := (carr w2)(aY ?e := projected x (carr w2 (aY ?e)) (carr w2 (aX ?e)))\<rparr>
              else w2)"
    using assms(1) eq i l r1 r2 by (simp add: blinkiva_gauss_def Let_def)
  then show ?thesis
    using W2 R2 G2 by (simp add: mk_env_addresses)
qed

section \<open>The concrete inputs, evaluated\<close>

lemma world1_simps:
  "carr world1 0 = [[[1]]]" "carr world1 1 = [[[1]], [[1]]]" "carr world1 2 = [[[\<i>]]]"
  "carr world1 3 = [[[1, 2]]]" "carr world1 4 = [[[0]], [[4]]]"
  "rarr world1 0 = [[2]]" "rarr world1 1 = [[0], [2]]" "rarr world1 (Suc 0) = [[0], [2]]"
  "cfree world1 = 5" "rfree world1 = 2" "np_random world1 = 7"
  "stdout world1 = []" "cb_log world1 = []"
  by (simp_all add: world1_def)

lemma args2_simps:
  "p_X args2 = 3" "p_U args2 = 0" "p_n_src args2 = Some 1" "p_W0 args2 = None"
  "p_seed args2 = Some 3" "p_sparse_reg args2 = 0"
  by (simp_all add: args2_def args1_def)

lemma env2_simps:
  "n_frames (mk_env args2 world1) = 1" "n_freq (mk_env args2 world1) = 1"
  "n_chan (mk_env args2 world1) = 2" "n_blink (mk_env args2 world1) = 1"
  "n_src (mk_env args2 world1) = 1"
  "aX (mk_env args2 world1) = 3" "aU (mk_env args2 world1) = 0"
  "aW (mk_env args2 world1) = 5" "aY (mk_env args2 world1) = 6"
  "aP (mk_env args2 world1) = 2" "aR_all (mk_env args2 world1) = 3"
  "aG (mk_env args2 world1) = 4"
  by (simp_all add: mk_env_def args2_simps world1_simps)

lemma ex2_allocate:
  "carr (allocate args2 (mk_env args2 world1) world1) 3 = [[[1, 2]]]"
  "carr (allocate args2 (mk_env args2 world1) world1) 5 = [[[1, 0], [0, 1]]]"
  "carr (allocate args2 (mk_env args2 world1) world1) 6 = [[[0, 0]]]"
  "rarr (allocate args2 (mk_env args2 world1) world1) 2 = [[0, 0]]"
  "rarr (allocate args2 (mk_env args2 world1) world1) 3 = [[1, 1]]"
  by (simp_all add: allocate_def env2_simps args2_simps world1_simps array_eval)

lemma ex2_demix:
  "carr (demix (mk_env args2 world1) (allocate args2 (mk_env args2 world1) world1)) 6 = [[[1, 2]]]"
  "rarr (demix (mk_env args2 world1) (allocate args2 (mk_env args2 world1) world1)) 2 = [[1, 4]]"
  "rarr (demix (mk_env args2 world1) (allocate args2 (mk_env args2 world1) world1)) 3 = [[1, 4]]"
proof -
  let ?e = "mk_env args2 world1"
  let ?w = "allocate args2 ?e world1"
  show Y: "carr (demix ?e ?w) 6 = [[[1, 2]]]"
    using demix_Y [of ?e ?w]
    by (simp add: env2_simps ex2_allocate array_eval sum_lessThan_2)
  show P: "rarr (demix ?e ?w) 2 = [[1, 4]]"
    using demix_P [of ?e ?w]
    by (simp add: env2_simps ex2_allocate array_eval Y norm_sq_eq)
  show "rarr (demix ?e ?w) 3 = [[1, 4]]"
    using demix_R_all [of ?e ?w]
    by (simp add: env2_simps ex2_allocate array_eval P)
qed

lemma args1W_simps:
  "p_X args1W = 0" "p_U args1W = 0" "p_n_src args1W = None" "p_W0 args1W = Some 2"
  "p_seed args1W = Some 3" "p_sparse_reg args1W = 0"
  by (simp_all add: args1W_def args1_def)

lemma env1W_simps:
  "n_frames (mk_env args1W world1) = 1" "n_freq (mk_env args1W world1) = 1"
  "n_chan (mk_env args1W world1) = 1" "n_blink (mk_env args1W world1) = 1"
  "n_src (mk_env args1W world1) = 1"
  "aX (mk_env args1W world1) = 0" "aU (mk_env args1W world1) = 0"
  "aW (mk_env args1W world1) = 5" "aY (mk_env args1W world1) = 6"
  "aP (mk_env args1W world1) = 2" "aR_all (mk_env args1W world1) = 3"
  "aG (mk_env args1W world1) = 4"
  by (simp_all add: mk_env_def args1W_simps world1_simps)

lemma ex1W_allocate:
  "carr (allocate args1W (mk_env args1W world1) world1) 5 = [[[\<i>]]]"
  by (simp add: allocate_def env1W_simps args1W_simps world1_simps)

lemma lib1_simps:
  "np_solve lib1 = solve1" "np_rand lib1 g m n = (tab2 m n (\<lambda>i j. 1 / 2), Suc g)"
  "np_seed lib1 sd = nat \<bar>sd\<bar>"
  by (simp_all add: lib1_def)

lemma csqrt_4: "csqrt 4 = 2"
proof -
  have "csqrt (complex_of_real 4) = complex_of_real (sqrt 4)"
    by (simp add: of_real_sqrt)
  then show ?thesis by simp
qed

lemma ex1W_I_up: "I_up [[[[1 / 4]]]] 0 0"
  by (simp add: I_up_def cmax_def clex_less_def)

lemma ex1W_solve:
  "solve_active lib1 (mk_env args1W world1) [[[\<i>]]] [[[[1 / 4]]]] 0 = Some [[4 * \<i>]]"
  by (simp add: solve_active_def env1W_simps array_eval ex1W_I_up lib1_simps WV_of_def
      unit_vec_def solve1_def)

lemma ex1W_update:
  "carr (snd (update_W_col lib1 (mk_env args1W world1) [[[[1 / 4]]]] 0
               (allocate args1W (mk_env args1W world1) world1))) 5 = [[[2 * \<i>]]]"
  using update_W_col_W [of lib1 "mk_env args1W world1" "allocate args1W (mk_env args1W world1) world1"
      "[[[[1 / 4]]]]" 0 "[[4 * \<i>]]"]
  by (simp add: env1W_simps ex1W_allocate ex1W_solve array_eval ex1W_I_up quad_form_def csqrt_4)

lemma ex1W_update_ok:
  "fst (update_W_col lib1 (mk_env args1W world1) [[[[1 / 4]]]] 0
          (allocate args1W (mk_env args1W world1) world1)) = None"
  by (simp add: update_W_col_def Let_def ex1W_allocate ex1W_solve env1W_simps)

lemma ex1W_arrays:
  "carr (allocate args1W (mk_env args1W world1) world1) 0 = [[[1]]]"
  "rarr (allocate args1W (mk_env args1W world1) world1) 3 = [[1]]"
  by (simp_all add: allocate_def env1W_simps args1W_simps world1_simps array_eval)

lemma ex1W_aux_V:
  "aux_V (mk_env args1W world1) [[[1]]] [[1]] = [[[[1000000000000000 / 2000000000000001]]]]"
  by (simp add: aux_V_def env1W_simps array_eval)

lemma ex1W_aux_I_up: "I_up [[[[1000000000000000 / 2000000000000001]]]] 0 0"
  by (simp add: I_up_def cmax_def clex_less_def)

lemma ex1W_aux_solve:
  "solve_active lib1 (mk_env args1W world1) [[[\<i>]]] [[[[1000000000000000 / 2000000000000001]]]] 0
   = Some [[1 / (cnj \<i> * (1000000000000000 / 2000000000000001))]]"
  by (simp add: solve_active_def env1W_simps array_eval ex1W_aux_I_up lib1_simps WV_of_def
      unit_vec_def solve1_def)

lemma solve1_contract:
  "solve1 A b = Some v \<Longrightarrow> i < 1 \<Longrightarrow> (\<Sum>j<1. A ! i ! j * v ! j) = b ! i"
  by (auto simp: solve1_def split: list.splits if_splits)

lemma fst_init_nmf:
  "fst (init_nmf x e seed w) = (if n_chan e < n_src e then Some ValueError else None)"
  by (simp add: init_nmf_def Let_def split: prod.splits)

lemma args2z_simps:
  "mk_env args2z w = mk_env args2 w" "allocate args2z e w = allocate args2 e w"
  "p_X args2z = 3" "p_U args2z = 0" "p_n_iter args2z = 0" "p_proj_back args2z = False"
  "p_return_filters args2z = True" "p_seed args2z = Some 3"
  by (simp_all add: args2z_def args2_def args1_def mk_env_def allocate_def)


















section \<open>The recorded cost on the first example\<close>

lemma args1_simps:
  "p_X args1 = 0" "p_U args1 = 0" "p_n_src args1 = None" "p_W0 args1 = None"
  "p_seed args1 = Some 3" "p_sparse_reg args1 = 0" "p_n_iter args1 = 11"
  "p_n_nmf_sub_iter args1 = 4" "p_proj_back args1 = False" "p_print_cost args1 = True"
  "p_return_filters args1 = True" "p_callback args1 = False"
  by (simp_all add: args1_def)

lemma env1_simps:
  "n_frames (mk_env args1 world1) = 1" "n_freq (mk_env args1 world1) = 1"
  "n_chan (mk_env args1 world1) = 1" "n_blink (mk_env args1 world1) = 1"
  "n_src (mk_env args1 world1) = 1" "sparse_reg (mk_env args1 world1) = 0"
  "U_mean (mk_env args1 world1) = [[1]]"
  "aX (mk_env args1 world1) = 0" "aU (mk_env args1 world1) = 0"
  "aW (mk_env args1 world1) = 5" "aY (mk_env args1 world1) = 6"
  "aP (mk_env args1 world1) = 2" "aR_all (mk_env args1 world1) = 3"
  "aG (mk_env args1 world1) = 4"
  by (simp_all add: mk_env_def args1_simps world1_simps)

lemma ex1_allocate:
  "carr (allocate args1 (mk_env args1 world1) world1) 0 = [[[1]]]"
  "carr (allocate args1 (mk_env args1 world1) world1) 5 = [[[1]]]"
  "carr (allocate args1 (mk_env args1 world1) world1) 6 = [[[0]]]"
  "rarr (allocate args1 (mk_env args1 world1) world1) 0 = [[2]]"
  "rarr (allocate args1 (mk_env args1 world1) world1) 2 = [[0]]"
  "rarr (allocate args1 (mk_env args1 world1) world1) 3 = [[1]]"
  "np_random (allocate args1 (mk_env args1 world1) world1) = 7"
  "stdout (allocate args1 (mk_env args1 world1) world1) = []"
  by (simp_all add: allocate_def env1_simps args1_simps world1_simps array_eval)

lemma ex1_init:
  "rarr (snd (init_nmf lib1 (mk_env args1 world1) (Some 3) (allocate args1 (mk_env args1 world1) world1))) 3
     = [[1]]"
  "rarr (snd (init_nmf lib1 (mk_env args1 world1) (Some 3) (allocate args1 (mk_env args1 world1) world1))) 4
     = [[1]]"
  "rarr (snd (init_nmf lib1 (mk_env args1 world1) (Some 3) (allocate args1 (mk_env args1 world1) world1))) 2
     = [[0]]"
  "rarr (snd (init_nmf lib1 (mk_env args1 world1) (Some 3) (allocate args1 (mk_env args1 world1) world1))) 0
     = [[2]]"
  "stdout (snd (init_nmf lib1 (mk_env args1 world1) (Some 3) (allocate args1 (mk_env args1 world1) world1)))
     = []"
  by (simp_all add: init_nmf_def Let_def lib1_simps env1_simps ex1_allocate array_eval U_hat_of_def
      sum_lessThan_1)

lemma stdout_demix_freq: "stdout (demix_freq e f w) = stdout w"
  by (simp add: demix_freq_def Let_def)

lemma stdout_demix: "stdout (demix e w) = stdout w"
  by (simp add: demix_def Let_def fold_obs [where obs = stdout] stdout_demix_freq)

lemma ex1_entry:
  fixes w1 :: "nat world"
  assumes "w1 = snd (init_nmf lib1 (mk_env args1 world1) (Some 3) (allocate args1 (mk_env args1 world1) world1))"
  shows "carr (demix (mk_env args1 world1) w1) 0 = [[[1]]]"
    and "carr (demix (mk_env args1 world1) w1) 5 = [[[1]]]"
    and "carr (demix (mk_env args1 world1) w1) 6 = [[[1]]]"
    and "rarr (demix (mk_env args1 world1) w1) 0 = [[2]]"
    and "rarr (demix (mk_env args1 world1) w1) 2 = [[1]]"
    and "rarr (demix (mk_env args1 world1) w1) 3 = [[1]]"
    and "rarr (demix (mk_env args1 world1) w1) 4 = [[1]]"
    and "stdout (demix (mk_env args1 world1) w1) = []"
proof -
  let ?e = "mk_env args1 world1"
  have c: "carr w1 a = carr (allocate args1 ?e world1) a" for a
    unfolding assms by (rule carr_init_nmf)
  note i = ex1_init [folded assms]
  show "carr (demix ?e w1) 0 = [[[1]]]" "carr (demix ?e w1) 5 = [[[1]]]"
    by (simp_all add: carr_demix env1_simps c ex1_allocate)
  show Y: "carr (demix ?e w1) 6 = [[[1]]]"
    using demix_Y [of ?e w1] by (simp add: env1_simps c ex1_allocate array_eval sum_lessThan_1)
  show P: "rarr (demix ?e w1) 2 = [[1]]"
    using demix_P [of ?e w1] by (simp add: env1_simps i array_eval Y norm_sq_eq)
  show "rarr (demix ?e w1) 3 = [[1]]"
    using demix_R_all [of ?e w1] by (simp add: env1_simps i array_eval P)
  show "rarr (demix ?e w1) 4 = [[1]]" "rarr (demix ?e w1) 0 = [[2]]"
    by (simp_all add: rarr_demix_other env1_simps i)
  show "stdout (demix ?e w1) = []"
    by (simp add: stdout_demix i)
qed

lemma floor_pos: "0 < (if v < machine_epsilon then machine_epsilon else v)"
  using machine_epsilon_pos by auto

lemma steady1_update_R:
  assumes "steady1 w"
  shows "\<exists>r>0. rarr (update_R (mk_env args1 world1) w) 3 = [[r]]"
proof -
  let ?e = "mk_env args1 world1"
  obtain q where q: "rarr w 2 = [[q]]"
    using assms by (auto simp: steady1_def)
  have R: "rarr w 3 = [[1]]"
    using assms by (simp add: steady1_def)
  let ?F = "R_factor ?e (rarr w 2) (rarr w 3) (rarr w 4) 0 0"
  have "rarr (update_R ?e w) 3 = [[if ?F < machine_epsilon then machine_epsilon else ?F]]"
    using update_R_R_all [of ?e w] by (simp add: env1_simps R array_eval)
  then show ?thesis
    using floor_pos [of ?F] by blast
qed

lemma steady1_update_G:
  assumes "\<exists>g. rarr w 4 = [[g]]"
  shows "\<exists>g>0. rarr (update_G (mk_env args1 world1) w) 4 = [[g]]"
proof -
  let ?e = "mk_env args1 world1"
  obtain g where g: "rarr w 4 = [[g]]"
    using assms by blast
  let ?v = "g * G_factor ?e (rarr w 3) [[g]] 0 0"
  have "rarr (update_G ?e w) 4 = [[if ?v < machine_epsilon then machine_epsilon else ?v]]"
    using update_G_G [of ?e w] by (simp add: env1_simps g array_eval)
  then show ?thesis
    using floor_pos [of ?v] by blast
qed

lemma steady1_nmf_sub_iter:
  assumes "steady1 w"
  shows "steady1 (nmf_sub_iter (mk_env args1 world1) w)"
proof -
  let ?e = "mk_env args1 world1"
  let ?w1 = "update_R ?e w"
  let ?w2 = "update_G ?e ?w1"
  obtain g c q y where w: "carr w 0 = [[[1]]]" "rarr w 0 = [[2]]" "rarr w 4 = [[g]]"
      "c \<noteq> 0" "carr w 5 = [[[c]]]" "0 \<le> q" "rarr w 2 = [[q]]" "carr w 6 = [[[y]]]"
    using assms by (auto simp: steady1_def)
  obtain r where r: "0 < r" "rarr ?w1 3 = [[r]]"
    using steady1_update_R [OF assms] by blast
  have G1: "rarr ?w1 4 = [[g]]"
    using update_R_other [of 4 ?e w] by (simp add: env1_simps w)
  obtain g' where g': "0 < g'" "rarr ?w2 4 = [[g']]"
    using steady1_update_G [of ?w1] G1 by blast
  have R2: "rarr ?w2 3 = [[r]]"
    using update_G_other [of 3 ?e ?w1] by (simp add: env1_simps r)
  have P2: "rarr ?w2 2 = [[q]]" and U2: "rarr ?w2 0 = [[2]]"
    using update_G_other [of 2 ?e ?w1] update_R_other [of 2 ?e w]
      update_G_other [of 0 ?e ?w1] update_R_other [of 0 ?e w]
    by (simp_all add: env1_simps w)
  have C2: "carr ?w2 a = carr w a" for a
    by (simp add: carr_update_G carr_update_R)
  have l: "lmb_of ?e [[r]] = [1 / r]"
    by (simp add: lmb_of_def env1_simps array_eval)
  let ?w3 = "rescale ?e ?w2"
  have R3: "rarr ?w3 3 = [[1]]"
    using rescale_R_all [of ?e ?w2] r(1) by (simp add: env1_simps R2 l array_eval)
  have P3: "rarr ?w3 2 = [[q / r]]"
    using rescale_P [of ?e ?w2] by (simp add: env1_simps R2 P2 l array_eval)
  have G3: "rarr ?w3 4 = [[g' * r]]"
    using rescale_G [of ?e ?w2] by (simp add: env1_simps R2 g' l array_eval)
  have W3: "carr ?w3 5 = [[[c * complex_of_real (sqrt (1 / r))]]]"
    using rescale_W [of ?e ?w2] by (simp add: env1_simps R2 C2 w l array_eval)
  have X3: "carr ?w3 0 = [[[1]]]" and Y3: "carr ?w3 6 = [[[y]]]"
    by (simp_all add: carr_rescale env1_simps C2 w)
  have U3: "rarr ?w3 0 = [[2]]"
    by (simp add: rescale_def Let_def env1_simps U2)
  have "c * complex_of_real (sqrt (1 / r)) \<noteq> 0"
    using w(4) r(1) by simp
  moreover have "0 \<le> q / r" "0 < g' * r"
    using w(6) r(1) g'(1) by simp_all
  ultimately show ?thesis
    unfolding steady1_def nmf_sub_iter_def using R3 P3 G3 W3 X3 Y3 U3 by auto
qed

lemma steady1_sub_iters:
  "steady1 w \<Longrightarrow> steady1 ((nmf_sub_iter (mk_env args1 world1) ^^ k) w)"
  by (induction k) (simp_all add: steady1_nmf_sub_iter)

lemma stdout_nmf_sub_iter: "stdout (nmf_sub_iter e w) = stdout w"
  by (simp add: nmf_sub_iter_def rescale_def update_G_def update_R_def Let_def)

lemma stdout_sub_iters: "stdout ((nmf_sub_iter e ^^ k) w) = stdout w"
  by (simp add: funpow_obs [where obs = stdout] stdout_nmf_sub_iter)

lemma ex1_power_pos: "0 < ex1_power"
  by (simp add: ex1_power_def)

lemma ex1_weight_nz: "ex1_weight \<noteq> 0"
  using ex1_power_pos by (simp add: ex1_weight_def)

lemma ex1_aux_V:
  "aux_V (mk_env args1 world1) [[[1]]] [[1]] = [[[[ex1_weight]]]]"
  by (simp add: aux_V_def env1_simps array_eval ex1_weight_def ex1_power_def)

lemma ex1_I_up: "I_up [[[[ex1_weight]]]] 0 0"
  by (simp add: I_up_def cmax_def clex_less_def ex1_weight_def ex1_power_def)

lemma ex1_solve:
  assumes "c \<noteq> 0"
  shows "solve_active lib1 (mk_env args1 world1) [[[c]]] [[[[ex1_weight]]]] 0
         = Some [[1 / (cnj c * ex1_weight)]]"
  using assms ex1_weight_nz
  by (simp add: solve_active_def env1_simps array_eval ex1_I_up lib1_simps WV_of_def unit_vec_def
      solve1_def)

lemma normalised_modulus:
  assumes "z \<noteq> 0" and "0 < v"
  shows "cmod (z / csqrt (cnj z * (complex_of_real v * z))) = sqrt (1 / v)"
proof -
  have "cmod (cnj z * (complex_of_real v * z)) = (cmod z)\<^sup>2 * v"
    using assms(2) by (simp add: norm_mult power2_eq_square)
  then have "cmod (csqrt (cnj z * (complex_of_real v * z))) = cmod z * sqrt v"
    by (simp add: real_sqrt_mult)
  then have "cmod (z / csqrt (cnj z * (complex_of_real v * z))) = cmod z / (cmod z * sqrt v)"
    by (simp only: norm_divide)
  also have "\<dots> = 1 / sqrt v"
    using assms(1) by simp
  finally show ?thesis
    by (simp add: real_sqrt_divide)
qed

lemma steady1_update_W:
  assumes "steady1 w"
  shows "\<exists>w' c'. update_W lib1 (mk_env args1 world1) w = (None, w')
           \<and> carr w' 5 = [[[c']]] \<and> cmod c' = sqrt ex1_power"
proof -
  let ?e = "mk_env args1 world1"
  let ?V = "[[[[ex1_weight]]]]"
  obtain c where c: "c \<noteq> 0" "carr w 5 = [[[c]]]"
    using assms by (auto simp: steady1_def)
  have XR: "carr w 0 = [[[1]]]" "rarr w 3 = [[1]]"
    using assms by (simp_all add: steady1_def)
  let ?z = "1 / (cnj c * ex1_weight)"
  have z: "?z \<noteq> 0"
    using c(1) ex1_weight_nz by simp
  note sol = ex1_solve [OF c(1)]
  have ok: "fst (update_W_col lib1 ?e ?V 0 w) = None"
    by (simp add: fst_update_W_col env1_simps c sol)
  have W: "carr (snd (update_W_col lib1 ?e ?V 0 w)) 5
           = [[[?z / csqrt (cnj ?z * (ex1_weight * ?z))]]]"
    using update_W_col_W [of lib1 ?e w ?V 0 "[[?z]]"]
    by (simp add: env1_simps c sol ex1_I_up array_eval quad_form_def)
  have u: "update_W lib1 ?e w = (None, snd (update_W_col lib1 ?e ?V 0 w))"
    using ok
    by (cases "update_W_col lib1 ?e ?V 0 w") (simp add: update_W_def Let_def env1_simps XR ex1_aux_V)
  have "cmod (?z / csqrt (cnj ?z * (complex_of_real (1 / ex1_power) * ?z))) = sqrt (1 / (1 / ex1_power))"
    using z ex1_power_pos by (intro normalised_modulus) simp_all
  then have "cmod (?z / csqrt (cnj ?z * (ex1_weight * ?z))) = sqrt ex1_power"
    unfolding ex1_weight_def by simp
  then show ?thesis
    using u W by blast
qed

lemma stdout_rescale: "stdout (rescale e w) = stdout w"
  by (simp add: rescale_def Let_def)

lemma stdout_update_W_col: "stdout (snd (update_W_col x e V s w)) = stdout w"
  by (simp add: update_W_col_def Let_def split: option.splits)

lemma stdout_update_W: "stdout (snd (update_W x e w)) = stdout w"
  by (simp add: update_W_def Let_def for_each_obs [where obs = stdout] stdout_update_W_col)

lemma stdout_report:
  "stdout (report x e a epoch w) =
     (if p_print_cost a \<and> epoch mod 10 = 0
      then stdout w @ [cost_nmf e (rarr w (aU e)) (rarr w (aG e)) (rarr w (aR_all e))
                       + cost_iva e (carr w (aY e)) (carr w (aW e)) (rarr w (aR_all e))]
      else stdout w)"
  by (simp add: report_def Let_def)

lemma steady1_arrays: "carr w' = carr w \<Longrightarrow> rarr w' = rarr w \<Longrightarrow> steady1 w' = steady1 w"
  by (simp add: steady1_def)

lemma steady1_report: "steady1 (report x e a epoch w) = steady1 w"
  by (rule steady1_arrays) (simp_all add: fun_eq_iff carr_report rarr_report)

lemma steady1_epoch_body:
  assumes "steady1 w"
  shows "\<exists>w'. epoch_body lib1 (mk_env args1 world1) args1 k w = (None, w') \<and> settled1 w'
              \<and> stdout w' = stdout (report lib1 (mk_env args1 world1) args1 k w)"
proof -
  let ?e = "mk_env args1 world1"
  let ?wr = "report lib1 ?e args1 k w"
  let ?ws = "(nmf_sub_iter ?e ^^ p_n_nmf_sub_iter args1) ?wr"
  have ss: "steady1 ?ws"
    using assms by (simp add: steady1_sub_iters steady1_report)
  obtain w5 c' where u: "update_W lib1 ?e ?ws = (None, w5)" and W5: "carr w5 5 = [[[c']]]"
      and c': "cmod c' = sqrt ex1_power"
    using steady1_update_W [OF ss] by blast
  obtain g q y where s: "carr ?ws 0 = [[[1]]]" "rarr ?ws 0 = [[2]]" "rarr ?ws 3 = [[1]]"
      "0 < g" "rarr ?ws 4 = [[g]]" "rarr ?ws 2 = [[q]]" "carr ?ws 6 = [[[y]]]"
    using ss by (auto simp: steady1_def)
  have r5: "rarr w5 a = rarr ?ws a" for a
    using rarr_update_W [of lib1 ?e ?ws a] u by simp
  have c5: "carr w5 0 = [[[1]]]" "carr w5 6 = [[[y]]]"
    using carr_update_W [of 0 ?e lib1 ?ws] carr_update_W [of 6 ?e lib1 ?ws] u
    by (simp_all add: env1_simps s)
  let ?wd = "demix ?e w5"
  have Yd: "carr ?wd 6 = [[[cnj c']]]"
    using demix_Y [of ?e w5] by (simp add: env1_simps c5 W5 array_eval)
  have Pd: "rarr ?wd 2 = [[(cmod c')\<^sup>2]]"
    using demix_P [of ?e w5] by (simp add: env1_simps r5 s Yd array_eval norm_sq_eq)
  have Rd: "rarr ?wd 3 = [[1]]"
    using demix_R_all [of ?e w5] by (simp add: env1_simps r5 s array_eval)
  have Gd: "rarr ?wd 4 = [[g]]" "rarr ?wd 0 = [[2]]"
    by (simp_all add: rarr_demix_other env1_simps r5 s)
  have Cd: "carr ?wd 0 = [[[1]]]" "carr ?wd 5 = [[[c']]]"
    by (simp_all add: carr_demix env1_simps c5 W5)
  let ?wf = "rescale ?e ?wd"
  have l: "lmb_of ?e [[1]] = [1]"
    by (simp add: lmb_of_def env1_simps array_eval)
  have Rf: "rarr ?wf 3 = [[1]]"
    using rescale_R_all [of ?e ?wd] by (simp add: env1_simps Rd l array_eval)
  have Pf: "rarr ?wf 2 = [[(cmod c')\<^sup>2]]"
    using rescale_P [of ?e ?wd] by (simp add: env1_simps Rd Pd l array_eval)
  have Gf: "rarr ?wf 4 = [[g]]"
    using rescale_G [of ?e ?wd] by (simp add: env1_simps Rd Gd l array_eval)
  have Wf: "carr ?wf 5 = [[[c']]]"
    using rescale_W [of ?e ?wd] by (simp add: env1_simps Rd Cd l array_eval)
  have Xf: "carr ?wf 0 = [[[1]]]" "carr ?wf 6 = [[[cnj c']]]"
    by (simp_all add: carr_rescale env1_simps Cd Yd)
  have Uf: "rarr ?wf 0 = [[2]]"
    by (simp add: rescale_def Let_def env1_simps Gd)
  have nz: "c' \<noteq> 0"
    using c' ex1_power_pos by auto
  have "settled1 ?wf"
    unfolding settled1_def steady1_def using Rf Pf Gf Wf Xf Uf s(4) nz c' by simp
  moreover have "stdout ?wf = stdout ?wr"
    using stdout_update_W [of lib1 ?e ?ws] u
    by (simp add: stdout_rescale stdout_demix stdout_sub_iters)
  moreover have "epoch_body lib1 ?e args1 k w = (None, ?wf)"
    by (simp add: epoch_body_def Let_def u)
  ultimately show ?thesis
    by blast
qed

lemma det_1x1: "det [[c]] = c"
  by simp

lemma ex1_cost_nmf:
  "cost_nmf (mk_env args1 world1) [[2]] [[g]] [[1]] = ln g + 1 / g"
  by (simp add: cost_nmf_def U_hat_of_def Let_def env1_simps array_eval)

lemma ex1_cost_iva:
  "cost_iva (mk_env args1 world1) [[[y]]] [[[c]]] [[1]] = - 2 * ln (cmod c) + (cmod y)\<^sup>2"
  by (simp add: cost_iva_def env1_simps norm_sq_eq)

lemma ln_plus_inverse: "0 < g \<Longrightarrow> 1 \<le> ln g + 1 / g" for g :: real
proof -
  assume g: "0 < g"
  have "ln (1 / g) \<le> 1 / g - 1"
    using g by (intro ln_le_minus_one) simp
  then show ?thesis
    using g by (simp add: ln_div)
qed

lemma sqrt_ex1_power: "7 / 5 \<le> sqrt ex1_power"
  by (rule real_le_rsqrt) (simp add: ex1_power_def power2_eq_square)

lemma settled_cost_iva:
  fixes s :: real
  assumes "7 / 5 \<le> s"
  shows "29 / 25 \<le> - 2 * ln s + s\<^sup>2"
proof -
  have "ln s \<le> s - 1"
    using assms by (intro ln_le_minus_one) simp
  then have "(s - 1)\<^sup>2 + 1 \<le> - 2 * ln s + s\<^sup>2"
    by (simp add: power2_eq_square algebra_simps)
  moreover have "(2 / 5)\<^sup>2 \<le> (s - 1)\<^sup>2"
    using assms by (intro power_mono) simp_all
  ultimately show ?thesis
    by (simp add: power2_eq_square)
qed

lemma settled1_cost:
  assumes "settled1 w"
  shows "54 / 25 \<le> cost_nmf (mk_env args1 world1) (rarr w 0) (rarr w 4) (rarr w 3)
                    + cost_iva (mk_env args1 world1) (carr w 6) (carr w 5) (rarr w 3)"
proof -
  obtain g c y where w: "rarr w 0 = [[2]]" "rarr w 3 = [[1]]" "0 < g" "rarr w 4 = [[g]]"
      "carr w 5 = [[[c]]]" "carr w 6 = [[[y]]]"
    using assms by (auto simp: settled1_def steady1_def)
  have m: "cmod c = sqrt ex1_power" "cmod y = sqrt ex1_power"
    using assms by (simp_all add: settled1_def w)
  have "1 \<le> ln g + 1 / g"
    using w(3) by (rule ln_plus_inverse)
  moreover have "29 / 25 \<le> - 2 * ln (sqrt ex1_power) + (sqrt ex1_power)\<^sup>2"
    using sqrt_ex1_power by (rule settled_cost_iva)
  ultimately show ?thesis
    by (simp add: w ex1_cost_nmf ex1_cost_iva m)
qed

lemma ex1_entry_cost:
  "cost_nmf (mk_env args1 world1) [[2]] [[1]] [[1]]
   + cost_iva (mk_env args1 world1) [[[1]]] [[[1]]] [[1]] = 2"
  by (simp add: ex1_cost_nmf ex1_cost_iva)

lemma for_each_append:
  "for_each body (js @ ks) w =
     (case for_each body js w of
        (Some err, w') \<Rightarrow> (Some err, w')
      | (None, w') \<Rightarrow> for_each body ks w')"
proof (induction js arbitrary: w)
  case Nil
  show ?case by simp
next
  case (Cons j js)
  obtain r w' where b: "body j w = (r, w')"
    by (cases "body j w")
  show ?case
    using b Cons.IH [of w'] by (cases r) simp_all
qed

lemma settled1_steady1: "settled1 w \<Longrightarrow> steady1 w"
  by (simp add: settled1_def)

text \<open>Epochs whose index is not a multiple of ten print nothing.\<close>

lemma quiet_epochs:
  assumes "settled1 w" and "\<forall>k \<in> set ks. k mod 10 \<noteq> 0"
  shows "\<exists>w'. for_each (epoch_body lib1 (mk_env args1 world1) args1) ks w = (None, w')
              \<and> settled1 w' \<and> stdout w' = stdout w"
  using assms
proof (induction ks arbitrary: w)
  case Nil
  then show ?case by simp
next
  case (Cons k ks)
  obtain w1 where 1: "epoch_body lib1 (mk_env args1 world1) args1 k w = (None, w1)"
      "settled1 w1" "stdout w1 = stdout (report lib1 (mk_env args1 world1) args1 k w)"
    using steady1_epoch_body [OF settled1_steady1 [OF Cons.prems(1)], of k] by blast
  have "stdout w1 = stdout w"
    using 1(3) Cons.prems(2) by (simp add: stdout_report)
  then show ?case
    using Cons.IH [OF 1(2)] Cons.prems(2) 1(1) by auto
qed

text \<open>The call of the first example: eleven epochs, of which epochs 0 and 10 record the cost.\<close>

lemma ex1_run:
  "fst (blinkiva_gauss lib1 args1 world1) = Inr (RetFilters 6 5 4 3)
   \<and> length (stdout (snd (blinkiva_gauss lib1 args1 world1))) = 2
   \<and> stdout (snd (blinkiva_gauss lib1 args1 world1)) ! 0 = 2
   \<and> 54 / 25 \<le> stdout (snd (blinkiva_gauss lib1 args1 world1)) ! 1"
proof -
  let ?e = "mk_env args1 world1"
  let ?w0 = "allocate args1 ?e world1"
  let ?body = "epoch_body lib1 ?e args1"
  obtain w1 where i: "init_nmf lib1 ?e (Some 3) ?w0 = (None, w1)"
    using fst_init_nmf [of lib1 ?e "Some 3" ?w0]
    by (cases "init_nmf lib1 ?e (Some 3) ?w0") (simp add: env1_simps)
  have w1: "w1 = snd (init_nmf lib1 ?e (Some 3) ?w0)"
    by (simp add: i)
  note entry = ex1_entry [OF w1]
  let ?S0 = "demix ?e w1"
  have st0: "steady1 ?S0"
    unfolding steady1_def by (simp add: entry)
  obtain S1 where e0: "?body 0 ?S0 = (None, S1)" "settled1 S1"
      "stdout S1 = stdout (report lib1 ?e args1 0 ?S0)"
    using steady1_epoch_body [OF st0, of 0] by blast
  have out1: "stdout S1 = [2]"
    using ex1_entry_cost by (simp add: e0(3) stdout_report args1_simps env1_simps entry)
  obtain S10 where q: "for_each ?body [Suc 0..<10] S1 = (None, S10)" "settled1 S10"
      "stdout S10 = stdout S1"
    using quiet_epochs [OF e0(2), of "[Suc 0..<10]"] by auto
  obtain S11 where e10: "?body 10 S10 = (None, S11)"
      "stdout S11 = stdout (report lib1 ?e args1 10 S10)"
    using steady1_epoch_body [OF settled1_steady1 [OF q(2)], of 10] by blast
  have out11: "stdout S11 = [2, cost_nmf ?e (rarr S10 0) (rarr S10 4) (rarr S10 3)
                                + cost_iva ?e (carr S10 6) (carr S10 5) (rarr S10 3)]"
    by (simp add: e10(2) stdout_report args1_simps env1_simps q(3) out1)
  have split: "[0..<11] = [0] @ [Suc 0..<10] @ [10]"
    by (simp add: upt_rec)
  have loop: "for_each ?body [0..<11] ?S0 = (None, S11)"
    unfolding split by (simp add: for_each_append e0(1) q(1) e10(1))
  have run: "blinkiva_gauss lib1 args1 world1 = (Inr (RetFilters 6 5 4 3), S11)"
    by (simp add: blinkiva_gauss_def Let_def args1_simps world1_simps i loop env1_simps)
  show ?thesis
    using settled1_cost [OF q(2)] by (simp add: run out11)
qed

section \<open>What a call prints\<close>

lemma stdout_epoch_body:
  "stdout (snd (epoch_body x e a k w)) = stdout (report x e a k w)"
proof -
  let ?w2 = "(nmf_sub_iter e ^^ p_n_nmf_sub_iter a) (report x e a k w)"
  obtain r w3 where u: "update_W x e ?w2 = (r, w3)"
    by (cases "update_W x e ?w2")
  have "stdout w3 = stdout ?w2"
    using stdout_update_W [of x e ?w2] u by simp
  then show ?thesis
    using u by (cases r) (simp_all add: epoch_body_def Let_def stdout_rescale stdout_demix stdout_sub_iters)
qed

lemma fst_epoch_body_stdout:
  "stdout (snd (epoch_body x e a k w)) =
     (if p_print_cost a \<and> k mod 10 = 0
      then stdout w @ [cost_nmf e (rarr w (aU e)) (rarr w (aG e)) (rarr w (aR_all e))
                       + cost_iva e (carr w (aY e)) (carr w (aW e)) (rarr w (aR_all e))]
      else stdout w)"
  by (simp add: stdout_epoch_body stdout_report)

lemma stdout_epochs:
  assumes "for_each (epoch_body x e a) ks w = (None, w')"
  shows "\<exists>cs. stdout w' = stdout w @ cs
            \<and> length cs = (if p_print_cost a then length (filter (\<lambda>k. k mod 10 = 0) ks) else 0)"
  using assms
proof (induction ks arbitrary: w)
  case Nil
  then show ?case by simp
next
  case (Cons k ks)
  obtain r w1 where b: "epoch_body x e a k w = (r, w1)"
    by (cases "epoch_body x e a k w")
  have r: "r = None" and rest: "for_each (epoch_body x e a) ks w1 = (None, w')"
    using Cons.prems b by (cases r; simp)+
  obtain cs where cs: "stdout w' = stdout w1 @ cs"
      "length cs = (if p_print_cost a then length (filter (\<lambda>k. k mod 10 = 0) ks) else 0)"
    using Cons.IH [OF rest] by blast
  have "stdout w1 = stdout w @ (if p_print_cost a \<and> k mod 10 = 0
          then [cost_nmf e (rarr w (aU e)) (rarr w (aG e)) (rarr w (aR_all e))
                + cost_iva e (carr w (aY e)) (carr w (aW e)) (rarr w (aR_all e))] else [])"
    using fst_epoch_body_stdout [of x e a k w] b by simp
  then show ?case
    using cs by auto
qed

lemma tenth_step:
  "(Suc n + 9) div 10 = (if n mod 10 = 0 then Suc ((n + 9) div 10) else (n + 9) div 10)"
proof -
  define q m where "q = n div 10" and "m = n mod 10"
  have n: "n = 10 * q + m" and m: "m < 10"
    by (simp_all add: q_def m_def)
  have a: "(n + 9) div 10 = q + (m + 9) div 10"
    unfolding n by (simp add: add.assoc)
  have b: "(Suc n + 9) div 10 = q + (m + 10) div 10"
    unfolding n by (simp add: add.assoc)
  show ?thesis
  proof (cases "m = 0")
    case True
    then show ?thesis
      using a b by (simp add: m_def [symmetric])
  next
    case False
    then have "(m + 9) div 10 = 1" "(m + 10) div 10 = 1"
      using m by simp_all
    then show ?thesis
      using a b False by (simp add: m_def [symmetric])
  qed
qed

lemma count_tenth: "length (filter (\<lambda>k. k mod 10 = 0) [0..<n]) = (n + 9) div 10"
proof (induction n)
  case 0
  show ?case by simp
next
  case (Suc n)
  have "length (filter (\<lambda>k. k mod 10 = 0) [0..<Suc n])
      = (if n mod 10 = 0 then Suc (length (filter (\<lambda>k. k mod 10 = 0) [0..<n]))
         else length (filter (\<lambda>k. k mod 10 = 0) [0..<n]))"
    by simp
  also have "\<dots> = (if n mod 10 = 0 then Suc ((n + 9) div 10) else (n + 9) div 10)"
    by (simp only: Suc.IH)
  also have "\<dots> = (Suc n + 9) div 10"
    by (rule tenth_step [symmetric])
  finally show ?case .
qed

lemma stdout_init_nmf: "stdout (snd (init_nmf x e seed w)) = stdout w"
  by (simp add: init_nmf_def Let_def split: prod.splits option.splits)

section \<open>Rejection of mismatched frame counts\<close>

text \<open>
  Claim C2.  When the frame counts of \<^verbatim>\<open>X\<close> and \<^verbatim>\<open>U\<close> (the lengths of their first axes)
  differ, the call raises \<^verbatim>\<open>ValueError\<close> and leaves the world as it found it: no array of
  the caller is written, nothing is allocated, the generator is not touched, whatever
  the library and the other arguments are.
\<close>

theorem frame_mismatch_rejected:
  "length (rarr w (p_U a)) \<noteq> length (carr w (p_X a)) \<Longrightarrow>
   blinkiva_gauss x a w = (Inl ValueError, w)"
  by (simp add: blinkiva_gauss_def)

theorem frame_mismatch_rejected_witness:
  "length (rarr world1 (p_U (args1\<lparr>p_X := 1\<rparr>))) \<noteq> length (carr world1 (p_X (args1\<lparr>p_X := 1\<rparr>)))
   \<and> blinkiva_gauss lib1 (args1\<lparr>p_X := 1\<rparr>) world1 = (Inl ValueError, world1)"
proof -
  have h: "length (rarr world1 (p_U (args1\<lparr>p_X := 1\<rparr>)))
            \<noteq> length (carr world1 (p_X (args1\<lparr>p_X := 1\<rparr>)))"
    by (simp add: world1_def args1_def)
  show ?thesis
    using h frame_mismatch_rejected [OF h, of lib1] by simp
qed

section \<open>The ambient generator\<close>

text \<open>
  When the draw of line 87 fits the view it is assigned to (\<^verbatim>\<open>n_src <= n_chan\<close>), line 94
  is reached: the state of the process-wide generator after the initializer is its state
  before, and so is its state when the call ends, with a result or with \<^verbatim>\<open>LinAlgError\<close>.
\<close>

lemma seeded_generator_restored:
  assumes "p_seed a = Some sd" and "n_src (mk_env a w) \<le> n_chan (mk_env a w)"
  shows "np_random (snd (init_nmf x (mk_env a w) (p_seed a) (allocate a (mk_env a w) w))) = np_random w
         \<and> np_random (snd (blinkiva_gauss x a w)) = np_random w"
proof -
  let ?e = "mk_env a w"
  let ?w0 = "allocate a ?e w"
  have 0: "np_random ?w0 = np_random w"
    by (simp add: allocate_def)
  obtain r w1 where i: "init_nmf x ?e (Some sd) ?w0 = (r, w1)"
    by (cases "init_nmf x ?e (Some sd) ?w0")
  have 1: "np_random w1 = np_random w"
    using rng_init_nmf_seeded [OF assms(2), of x sd ?w0] i 0 by simp
  obtain r' w2 where l: "for_each (epoch_body x ?e a) [0..<p_n_iter a] (demix ?e w1) = (r', w2)"
    by (cases "for_each (epoch_body x ?e a) [0..<p_n_iter a] (demix ?e w1)")
  have "np_random w2 = np_random (demix ?e w1)"
    using for_each_obs [where obs = np_random and body = "epoch_body x ?e a"
                          and js = "[0..<p_n_iter a]" and w = "demix ?e w1"] l
    by (simp add: rng_epoch_body)
  then have 2: "np_random w2 = np_random w"
    using 1 by (simp add: rng_demix)
  have "np_random (snd (blinkiva_gauss x a w)) = np_random w"
    using assms(1) i l 1 2
    by (cases r; cases r') (simp_all add: blinkiva_gauss_def Let_def)
  then show ?thesis
    using assms(1) i 1 by simp
qed

text \<open>
  Claim C9 at \<^verbatim>\<open>n_src > n_chan\<close>.  The caller passes one channel, asks for two sources and
  gives the seed 3, while the process-wide generator is in state 7.  Line 84 saves the
  state, line 85 seeds the generator, line 87 draws and then raises \<^verbatim>\<open>ValueError\<close>, because
  an array of two columns cannot be assigned to a view of one; nothing catches the error,
  so line 94 does not run: the call ends with \<^verbatim>\<open>ValueError\<close> and leaves the generator in
  the state that follows the seeded draw (4 with the generator of the examples), not in
  the state 7 it had before the call.
\<close>

theorem seeded_draw_not_restored:
  "fst (blinkiva_gauss lib1 args9 world1) = Inl ValueError
   \<and> p_seed args9 = Some 3
   \<and> np_random world1 = 7
   \<and> np_random (snd (blinkiva_gauss lib1 args9 world1)) = 4"
  by (simp add: blinkiva_gauss_def args9_def args1_def world1_def mk_env_def init_nmf_def
      lib1_def Let_def allocate_def)

section \<open>The caller's initial demixing matrix\<close>

text \<open>
  Claim C10.  When the caller supplies \<^verbatim>\<open>W0\<close> (an array of the caller's memory, at an
  address in use), the call leaves that array as it was, whatever its outcome: \<^verbatim>\<open>W\<close> is
  bound to a copy at a fresh address, and every write to \<^verbatim>\<open>W\<close> goes there.
\<close>

theorem W0_left_unchanged:
  assumes "p_W0 a = Some a0" and "a0 < cfree w"
  shows "carr (snd (blinkiva_gauss x a w)) a0 = carr w a0 \<and> aW (mk_env a w) \<noteq> a0
         \<and> carr (allocate a (mk_env a w) w) (aW (mk_env a w)) = carr w a0"
proof -
  let ?e = "mk_env a w"
  let ?w0 = "allocate a ?e w"
  have W: "aW ?e \<noteq> a0" and Y: "aY ?e \<noteq> a0"
    using assms(2) by (simp_all add: mk_env_def Let_def)
  have 0: "carr ?w0 a0 = carr w a0"
    using W Y by (simp add: allocate_def)
  have c: "carr ?w0 (aW ?e) = carr w a0"
    using assms(1) by (simp add: allocate_def mk_env_def Let_def)
  obtain r w1 where i: "init_nmf x ?e (p_seed a) ?w0 = (r, w1)"
    by (cases "init_nmf x ?e (p_seed a) ?w0")
  have 1: "carr w1 a0 = carr w a0"
    using carr_init_nmf [of x ?e "p_seed a" ?w0 a0] i 0 by simp
  obtain r' w2 where l: "for_each (epoch_body x ?e a) [0..<p_n_iter a] (demix ?e w1) = (r', w2)"
    by (cases "for_each (epoch_body x ?e a) [0..<p_n_iter a] (demix ?e w1)")
  have "carr w2 a0 = carr (demix ?e w1) a0"
    using for_each_obs [where obs = "\<lambda>w. carr w a0" and body = "epoch_body x ?e a"
                          and js = "[0..<p_n_iter a]" and w = "demix ?e w1"] l W Y
    by (simp add: carr_epoch_body)
  then have 2: "carr w2 a0 = carr w a0"
    using 1 Y by (simp add: carr_demix)
  have "carr (snd (blinkiva_gauss x a w)) a0 = carr w a0"
    using i l 1 2 Y
    by (cases r; cases r') (simp_all add: blinkiva_gauss_def Let_def)
  then show ?thesis
    using W c by simp
qed

theorem W0_left_unchanged_witness:
  "p_W0 (args1\<lparr>p_W0 := Some 2\<rparr>) = Some 2 \<and> 2 < cfree world1
   \<and> carr (snd (blinkiva_gauss lib1 (args1\<lparr>p_W0 := Some 2\<rparr>) world1)) 2 = [[[\<i>]]]"
proof -
  have p: "p_W0 (args1\<lparr>p_W0 := Some 2\<rparr>) = Some 2"
    by simp
  have c: "2 < cfree world1"
    by (simp add: world1_def)
  show ?thesis
    using p c W0_left_unchanged [OF p c, of lib1] by (simp add: world1_def)
qed

section \<open>The demixer\<close>

text \<open>
  Claim C7.  A call of \<^verbatim>\<open>demix\<close> sets \<^verbatim>\<open>Y[:,f,:] = X[:,f,:] . conj(W[f])\<close> for every
  frequency, sets every column of \<^verbatim>\<open>P\<close> (those of the \<^verbatim>\<open>n_src\<close> sources among them) to
  the squared norm of \<^verbatim>\<open>Y\<close> over the frequency axis divided by \<^verbatim>\<open>n_freq\<close>, and
  overwrites the columns of \<^verbatim>\<open>R_all\<close> from \<^verbatim>\<open>n_src\<close> on with those of \<^verbatim>\<open>P\<close>, leaving
  the first \<^verbatim>\<open>n_src\<close> columns as they were.  The hypotheses say that \<^verbatim>\<open>Y\<close> is not the
  buffer of \<^verbatim>\<open>X\<close> or \<^verbatim>\<open>W\<close>, that \<^verbatim>\<open>P\<close> is not the buffer of \<^verbatim>\<open>R_all\<close>, and that
  the buffers have the shapes given by lines 71-76.
\<close>

theorem demix_sets:
  assumes "aY e \<noteq> aX e" and "aY e \<noteq> aW e" and "aP e \<noteq> aR_all e"
    and "shape3 (carr w (aY e)) (n_frames e) (n_freq e) (n_chan e)"
    and "shape2 (rarr w (aP e)) (n_frames e) (n_chan e)"
    and "shape2 (rarr w (aR_all e)) (n_frames e) (n_chan e)"
    and "n < n_frames e" and "c < n_chan e"
  shows "(\<forall>f<n_freq e. carr (demix e w) (aY e) ! n ! f ! c =
            (\<Sum>k<n_chan e. carr w (aX e) ! n ! f ! k * cnj (carr w (aW e) ! f ! k ! c)))
       \<and> rarr (demix e w) (aP e) ! n ! c =
            (\<Sum>f<n_freq e. (cmod (carr (demix e w) (aY e) ! n ! f ! c))\<^sup>2) / real (n_freq e)
       \<and> rarr (demix e w) (aR_all e) ! n ! c =
            (if n_src e \<le> c then rarr (demix e w) (aP e) ! n ! c else rarr w (aR_all e) ! n ! c)"
proof -
  have Y: "\<forall>f<n_freq e. carr (demix e w) (aY e) ! n ! f ! c =
            (\<Sum>k<n_chan e. carr w (aX e) ! n ! f ! k * cnj (carr w (aW e) ! f ! k ! c))"
    using assms(4,7,8) by (simp add: demix_Y [OF assms(1,2)] shape3_def shape2_def)
  have P: "rarr (demix e w) (aP e) ! n ! c =
            (\<Sum>f<n_freq e. (cmod (carr (demix e w) (aY e) ! n ! f ! c))\<^sup>2) / real (n_freq e)"
    using assms(5,7,8) by (simp add: demix_P [OF assms(3)] shape2_def norm_sq_eq)
  have R: "rarr (demix e w) (aR_all e) ! n ! c =
            (if n_src e \<le> c then rarr (demix e w) (aP e) ! n ! c else rarr w (aR_all e) ! n ! c)"
    using assms(6,7,8) by (simp add: demix_R_all [OF assms(3)] shape2_def)
  show ?thesis
    using Y P R by simp
qed

theorem demix_sets_witness:
  "aY (mk_env args2 world1) \<noteq> aX (mk_env args2 world1)
   \<and> aY (mk_env args2 world1) \<noteq> aW (mk_env args2 world1)
   \<and> aP (mk_env args2 world1) \<noteq> aR_all (mk_env args2 world1)
   \<and> shape3 (carr (allocate args2 (mk_env args2 world1) world1) (aY (mk_env args2 world1))) 1 1 2
   \<and> shape2 (rarr (allocate args2 (mk_env args2 world1) world1) (aP (mk_env args2 world1))) 1 2
   \<and> shape2 (rarr (allocate args2 (mk_env args2 world1) world1) (aR_all (mk_env args2 world1))) 1 2
   \<and> carr (demix (mk_env args2 world1) (allocate args2 (mk_env args2 world1) world1)) 6 ! 0 ! 0 ! 1 = 2
   \<and> rarr (demix (mk_env args2 world1) (allocate args2 (mk_env args2 world1) world1)) 2 ! 0 ! 1 = 4
   \<and> rarr (demix (mk_env args2 world1) (allocate args2 (mk_env args2 world1) world1)) 3 ! 0 ! 1 = 4"
proof -
  let ?e = "mk_env args2 world1"
  let ?w = "allocate args2 ?e world1"
  note e = env2_simps
  have a: "aY ?e \<noteq> aX ?e" "aY ?e \<noteq> aW ?e" "aP ?e \<noteq> aR_all ?e"
    by (simp_all add: e)
  have s: "shape3 (carr ?w (aY ?e)) (n_frames ?e) (n_freq ?e) (n_chan ?e)"
    "shape2 (rarr ?w (aP ?e)) (n_frames ?e) (n_chan ?e)"
    "shape2 (rarr ?w (aR_all ?e)) (n_frames ?e) (n_chan ?e)"
    by (simp_all add: allocate_def a)
  have n: "0 < n_frames ?e" "1 < n_chan ?e"
    by (simp_all add: e)
  have X: "carr ?w 3 = [[[1, 2]]]"
    by (simp add: allocate_def e world1_simps)
  have W: "carr ?w 5 ! 0 = [[1, 0], [0, 1]]"
    by (simp add: allocate_def e args2_simps tab3_def tab2_def tab_def eval_nat_numeral)
  show ?thesis
    using a s demix_sets [OF a s n] by (simp add: e X W sum_lessThan_2)
qed

section \<open>The rescale\<close>




section \<open>The demixing-matrix solver\<close>

text \<open>
  Claim C5, as amended.  In the iteration of the loop at line 174 for the channel index
  \<open>s\<close>, for every active frequency \<open>f\<close>: the vector \<open>v\<close> is what \<^verbatim>\<open>np.linalg.solve\<close>
  returns for the matrix \<open>W\<^sup>H[f] V[f,s]\<close> (\<open>WV_of\<close>) and the right-hand side \<open>e\<^sub>s\<close>
  (\<open>unit_vec\<close>), and the iteration leaves \<^verbatim>\<open>W[f,:,s] = v / sqrt(v\<^sup>H V[f,s] v)\<close>: the
  solution itself, not its conjugate, divided by the root of its quadratic form.  The
  hypotheses: \<^verbatim>\<open>W\<close> has its shape and the iteration does not raise.
\<close>

theorem W_column_update:
  assumes "shape3 (carr w (aW e)) (n_freq e) (n_chan e) (n_chan e)"
    and "s < n_chan e" and "f < n_freq e" and "I_up V s f"
    and "update_W_col x e V s w = (None, w')"
  shows "\<exists>v. np_solve x (WV_of e (carr w (aW e)) V s f) (unit_vec e s) = Some v
           \<and> (\<forall>i<n_chan e. carr w' (aW e) ! f ! i ! s
                 = v ! i / csqrt (\<Sum>i<n_chan e. cnj (v ! i) * (\<Sum>j<n_chan e. V ! f ! s ! i ! j * v ! j)))"
proof -
  obtain sol where sol: "solve_active x e (carr w (aW e)) V s = Some sol"
    using update_W_col_None [OF assms(5)] by blast
  let ?W1 = "imap3 (\<lambda>f i j v. if I_up V s f \<and> j = s then sol ! f ! i else v) (carr w (aW e))"
  have v: "np_solve x (WV_of e (carr w (aW e)) V s f) (unit_vec e s) = Some (sol ! f)"
    using solve_active_Some [OF sol assms(3,4)] .
  have len: "length (carr w (aW e)) = n_freq e" "length (carr w (aW e) ! f) = n_chan e"
    "\<And>i. i < n_chan e \<Longrightarrow> length (carr w (aW e) ! f ! i) = n_chan e"
    using assms(1,3) by (simp_all add: shape3_def shape2_def)
  have col: "\<And>i. i < n_chan e \<Longrightarrow> ?W1 ! f ! i ! s = sol ! f ! i"
    using assms(2,3,4) len by simp
  have q: "quad_form e ?W1 V s f
           = (\<Sum>i<n_chan e. cnj (sol ! f ! i) * (\<Sum>j<n_chan e. V ! f ! s ! i ! j * sol ! f ! j))"
    unfolding quad_form_def using col by (intro sum.cong refl) simp
  have "\<forall>i<n_chan e. carr w' (aW e) ! f ! i ! s
          = sol ! f ! i / csqrt (\<Sum>i<n_chan e. cnj (sol ! f ! i) * (\<Sum>j<n_chan e. V ! f ! s ! i ! j * sol ! f ! j))"
    using update_W_col_W [OF sol] assms(2,3,4,5) len q by simp
  then show ?thesis
    using v by blast
qed

theorem W_column_update_witness:
  "shape3 (carr (allocate args1W (mk_env args1W world1) world1) (aW (mk_env args1W world1))) 1 1 1
   \<and> I_up [[[[1 / 4]]]] 0 0
   \<and> fst (update_W_col lib1 (mk_env args1W world1) [[[[1 / 4]]]] 0
             (allocate args1W (mk_env args1W world1) world1)) = None
   \<and> (\<exists>v. solve1 [[- \<i> / 4]] [1] = Some v
          \<and> carr (snd (update_W_col lib1 (mk_env args1W world1) [[[[1 / 4]]]] 0
                      (allocate args1W (mk_env args1W world1) world1))) 5 ! 0 ! 0 ! 0
              = v ! 0 / csqrt (cnj (v ! 0) * (v ! 0 / 4)))"
proof -
  let ?e = "mk_env args1W world1"
  let ?w = "allocate args1W ?e world1"
  let ?V = "[[[[1 / 4]]]] :: complex list list list list"
  note e = env1W_simps
  have s: "shape3 (carr ?w (aW ?e)) (n_freq ?e) (n_chan ?e) (n_chan ?e)"
    by (simp add: e ex1W_allocate shape3_def shape2_def)
  have n: "0 < n_chan ?e" "0 < n_freq ?e"
    by (simp_all add: e)
  have u: "update_W_col lib1 ?e ?V 0 ?w = (None, snd (update_W_col lib1 ?e ?V 0 ?w))"
    using ex1W_update_ok by (simp add: prod_eq_iff)
  have WV: "WV_of ?e [[[\<i>]]] ?V 0 0 = [[- \<i> / 4]]" "unit_vec ?e 0 = [1]"
    by (simp_all add: WV_of_def unit_vec_def e array_eval)
  show ?thesis
    using s ex1W_I_up ex1W_update_ok W_column_update [OF s n ex1W_I_up u]
    by (simp add: e ex1W_allocate lib1_simps WV)
qed

text \<open>
  Claim C5 as stated says \<^verbatim>\<open>W[f,:,s] = conj(w) / sqrt(w\<^sup>H V[f,s] w)\<close>.  With one channel,
  \<^verbatim>\<open>W[0] = [[1j]]\<close> and \<^verbatim>\<open>V[0,0] = [[1/4]]\<close>, the system is \<open>(-\<i>/4) w = 1\<close>, its solution
  is \<open>w = 4\<i>\<close> with quadratic form 4, and the update leaves \<^verbatim>\<open>W[0,0,0] = 2j\<close>, which is
  \<open>w / 2\<close>, where the claim's formula gives \<open>-2\<i>\<close>.
\<close>

theorem W_column_update_counterexample:
  "solve1 [[cnj \<i> * (1 / 4)]] [1] = Some [4 * \<i>]
   \<and> carr (snd (update_W_col lib1 (mk_env args1W world1) [[[[1 / 4]]]] 0
               (allocate args1W (mk_env args1W world1) world1))) 5 ! 0 ! 0 ! 0 = 2 * \<i>
   \<and> 2 * \<i> \<noteq> cnj (4 * \<i>) / csqrt (cnj (4 * \<i>) * (1 / 4 * (4 * \<i>)))"
  by (simp add: ex1W_update solve1_def csqrt_4)

section \<open>The normalization of an updated column\<close>

text \<open>
  Claim C6.  After the update of column \<open>s\<close> (one iteration of the loop at line 174), at
  every active frequency \<open>f\<close> the quadratic form \<open>W[f,:,s]\<^sup>H V[f,s] W[f,:,s]\<close>, which is
  the expression \<^verbatim>\<open>np.sum(P1 * P2)\<close> of lines 184-186 on the new \<^verbatim>\<open>W\<close>, is 1; in exact
  arithmetic it is exactly 1.  \<open>V\<close> is the covariance of lines 165-170.  The hypotheses:
  \<^verbatim>\<open>W\<close> has its shape, there is at least one frame, the activations of column \<open>s\<close>
  are not negative (so that the weights of the covariance are positive), the iteration
  does not raise, and what \<^verbatim>\<open>np.linalg.solve\<close> returns solves the system.
\<close>

theorem normalised_column:
  assumes shape: "shape3 (carr w (aW e)) (n_freq e) (n_chan e) (n_chan e)"
    and s: "s < n_chan e" and f: "f < n_freq e" and N: "0 < n_frames e"
    and V: "V = aux_V e X R_all"
    and d: "\<forall>n<n_frames e. 0 \<le> R_all ! n ! s"
    and up: "I_up V s f"
    and run: "update_W_col x e V s w = (None, w')"
    and contract: "\<forall>v. np_solve x (WV_of e (carr w (aW e)) V s f) (unit_vec e s) = Some v \<longrightarrow>
        (\<forall>i<n_chan e. (\<Sum>j<n_chan e. WV_of e (carr w (aW e)) V s f ! i ! j * v ! j) = unit_vec e s ! i)"
  shows "quad_form e (carr w' (aW e)) V s f = 1"
proof -
  let ?C = "n_chan e" and ?N = "n_frames e"
  let ?W = "carr w (aW e)"
  obtain sol where sol: "solve_active x e ?W V s = Some sol"
    using update_W_col_None [OF run] by blast
  define v where "v = (\<lambda>i. sol ! f ! i)"
  define xx where "xx = (\<lambda>n i. X ! n ! f ! i)"
  define dd where "dd = (\<lambda>n. 1 / 10 ^ 15 + 2 * R_all ! n ! s)"
  define a where "a = (\<lambda>n. \<Sum>j<?C. cnj (xx n j) * v j)"
  define r where "r = (\<Sum>n<?N. (cmod (a n))\<^sup>2 / dd n) / real ?N"
  let ?Vf = "\<lambda>i j. (\<Sum>n<?N. xx n i / complex_of_real (dd n) * cnj (xx n j)) / of_nat ?N"
  have Vij: "\<And>i j. i < ?C \<Longrightarrow> j < ?C \<Longrightarrow> V ! f ! s ! i ! j = ?Vf i j"
    using f s by (simp add: V aux_V_nth xx_def dd_def)
  have Vv: "\<And>i. i < ?C \<Longrightarrow> (\<Sum>j<?C. V ! f ! s ! i ! j * v j) = (\<Sum>j<?C. ?Vf i j * v j)"
    using Vij by (intro sum.cong refl) simp
  have q: "(\<Sum>i<?C. cnj (v i) * (\<Sum>j<?C. V ! f ! s ! i ! j * v j)) = complex_of_real r"
  proof -
    have "(\<Sum>i<?C. cnj (v i) * (\<Sum>j<?C. V ! f ! s ! i ! j * v j))
        = (\<Sum>i<?C. cnj (v i) * (\<Sum>j<?C. ?Vf i j * v j))"
      using Vv by (intro sum.cong refl) simp
    then show ?thesis
      unfolding r_def a_def using quad_as_mean [where C = ?C and v = v and N = ?N and x = xx and d = dd] by simp
  qed
  have dpos: "\<forall>n<?N. 0 < dd n"
    using d by (auto simp: dd_def intro: add_pos_nonneg)
  have solved: "np_solve x (WV_of e ?W V s f) (unit_vec e s) = Some (sol ! f)"
    using solve_active_Some [OF sol f up] .
  have row: "(\<Sum>j<?C. WV_of e ?W V s f ! s ! j * v j) = 1"
    using contract solved s by (simp add: v_def unit_vec_def)
  have "\<exists>m<?N. a m \<noteq> 0"
  proof (rule ccontr)
    assume "\<not> (\<exists>m<?N. a m \<noteq> 0)"
    then have z: "\<forall>n<?N. (\<Sum>j<?C. cnj (xx n j) * v j) = 0"
      by (simp add: a_def)
    have Vz: "\<And>k. k < ?C \<Longrightarrow> (\<Sum>j<?C. V ! f ! s ! k ! j * v j) = 0"
      using cov_times_vec [OF z] Vv by simp
    have "(\<Sum>j<?C. WV_of e ?W V s f ! s ! j * v j)
        = (\<Sum>j<?C. \<Sum>k<?C. cnj (?W ! f ! k ! s) * (V ! f ! s ! k ! j * v j))"
      using s by (intro sum.cong refl) (simp add: WV_of_nth sum_distrib_right mult.assoc)
    also have "\<dots> = (\<Sum>k<?C. \<Sum>j<?C. cnj (?W ! f ! k ! s) * (V ! f ! s ! k ! j * v j))"
      by (rule sum.swap)
    also have "\<dots> = (\<Sum>k<?C. cnj (?W ! f ! k ! s) * (\<Sum>j<?C. V ! f ! s ! k ! j * v j))"
      by (simp add: sum_distrib_left)
    also have "\<dots> = 0"
      using Vz by simp
    finally show False
      using row by simp
  qed
  then obtain m where m: "m < ?N" "a m \<noteq> 0"
    by blast
  have rpos: "0 < r"
    unfolding r_def using mean_pos [where a = a and d = dd and N = ?N and m = m] dpos m by blast
  have c: "csqrt (complex_of_real r) = complex_of_real (sqrt r)"
    by (rule of_real_sqrt [symmetric]) (use rpos in simp)
  have col: "\<forall>i<?C. carr w' (aW e) ! f ! i ! s = v i / complex_of_real (sqrt r)"
    using update_W_col_column [OF shape s f up sol] run q c by (simp add: v_def)
  have inner: "\<And>i. (\<Sum>j<?C. V ! f ! s ! i ! j * carr w' (aW e) ! f ! j ! s)
                 = (\<Sum>j<?C. V ! f ! s ! i ! j * (v j / complex_of_real (sqrt r)))"
    by (rule sum.cong [OF refl]) (simp add: col)
  have "quad_form e (carr w' (aW e)) V s f
      = (\<Sum>i<?C. cnj (v i / complex_of_real (sqrt r))
            * (\<Sum>j<?C. V ! f ! s ! i ! j * (v j / complex_of_real (sqrt r))))"
    unfolding quad_form_def inner by (rule sum.cong [OF refl]) (simp add: col)
  also have "\<dots> = (\<Sum>i<?C. cnj (v i) * (\<Sum>j<?C. V ! f ! s ! i ! j * v j))
                    / (complex_of_real (sqrt r) * complex_of_real (sqrt r))"
    by (simp add: sum_divide_distrib sum_distrib_left sum_distrib_right)
  also have "\<dots> = complex_of_real r / complex_of_real r"
    using rpos q by (simp flip: of_real_mult)
  also have "\<dots> = 1"
    using rpos by simp
  finally show ?thesis .
qed

theorem normalised_column_witness:
  "shape3 (carr (allocate args1W (mk_env args1W world1) world1) (aW (mk_env args1W world1))) 1 1 1
   \<and> 0 \<le> rarr (allocate args1W (mk_env args1W world1) world1) 3 ! 0 ! 0
   \<and> I_up (aux_V (mk_env args1W world1) [[[1]]] [[1]]) 0 0
   \<and> fst (update_W_col lib1 (mk_env args1W world1) (aux_V (mk_env args1W world1) [[[1]]] [[1]]) 0
            (allocate args1W (mk_env args1W world1) world1)) = None
   \<and> quad_form (mk_env args1W world1)
         (carr (snd (update_W_col lib1 (mk_env args1W world1) (aux_V (mk_env args1W world1) [[[1]]] [[1]]) 0
            (allocate args1W (mk_env args1W world1) world1))) 5)
         (aux_V (mk_env args1W world1) [[[1]]] [[1]]) 0 0 = 1"
proof -
  let ?e = "mk_env args1W world1"
  let ?w = "allocate args1W ?e world1"
  let ?V = "aux_V ?e [[[1]]] [[1]]"
  note e = env1W_simps
  have shape: "shape3 (carr ?w (aW ?e)) (n_freq ?e) (n_chan ?e) (n_chan ?e)"
    by (simp add: e ex1W_allocate shape3_def shape2_def)
  have n: "0 < n_chan ?e" "0 < n_freq ?e" "0 < n_frames ?e"
    by (simp_all add: e)
  have d: "\<forall>n<n_frames ?e. 0 \<le> [[1::real]] ! n ! 0"
    by (simp add: e)
  have up: "I_up ?V 0 0"
    by (simp add: ex1W_aux_V ex1W_aux_I_up)
  have ok: "fst (update_W_col lib1 ?e ?V 0 ?w) = None"
    by (simp add: update_W_col_def Let_def e ex1W_allocate ex1W_aux_V ex1W_aux_solve)
  have run: "update_W_col lib1 ?e ?V 0 ?w = (None, snd (update_W_col lib1 ?e ?V 0 ?w))"
    using ok by (simp add: prod_eq_iff)
  have contract: "\<forall>v. np_solve lib1 (WV_of ?e (carr ?w (aW ?e)) ?V 0 0) (unit_vec ?e 0) = Some v \<longrightarrow>
        (\<forall>i<n_chan ?e. (\<Sum>j<n_chan ?e. WV_of ?e (carr ?w (aW ?e)) ?V 0 0 ! i ! j * v ! j) = unit_vec ?e 0 ! i)"
    using solve1_contract by (simp add: lib1_simps e)
  show ?thesis
    using shape up ok normalised_column [OF shape n(1,2,3) refl d up run contract]
    by (simp add: e ex1W_arrays)
qed

section \<open>The shape of what is returned\<close>

text \<open>
  Claim C1 at \<^verbatim>\<open>n_src < n_chan\<close>.  The caller passes one frame, one frequency and two
  channels, \<^verbatim>\<open>X = [[[1, 2]]]\<close>, and asks for one source, \<^verbatim>\<open>n_src = 1\<close>.  The call returns
  \<^verbatim>\<open>Y, W, G, R_all\<close>, and the returned \<^verbatim>\<open>Y\<close> is \<^verbatim>\<open>[[[1, 2]]]\<close>, of shape (1, 1, 2): one
  column per channel, not one per source.  (The call is evaluated with no epoch;
  \<open>returned_Y_shape\<close> gives the same shape for every call that returns, and
  \<open>returned_filter_shapes\<close> the shapes of \<^verbatim>\<open>W\<close>, \<^verbatim>\<open>G\<close> and \<^verbatim>\<open>R_all\<close>.)
\<close>

theorem returned_Y_has_all_channels:
  "fst (blinkiva_gauss lib1 args2z world1) = Inr (RetFilters 6 5 4 3)
   \<and> carr (snd (blinkiva_gauss lib1 args2z world1)) 6 = [[[1, 2]]]
   \<and> length (carr (snd (blinkiva_gauss lib1 args2z world1)) 6 ! 0 ! 0) = 2
   \<and> n_src (mk_env args2z world1) = 1"
proof -
  let ?e = "mk_env args2 world1"
  let ?w0 = "allocate args2 ?e world1"
  obtain w1 where i: "init_nmf lib1 ?e (Some 3) ?w0 = (None, w1)"
    using fst_init_nmf [of lib1 ?e "Some 3" ?w0]
    by (cases "init_nmf lib1 ?e (Some 3) ?w0") (simp add: env2_simps)
  have run: "blinkiva_gauss lib1 args2z world1 = (Inr (RetFilters 6 5 4 3), demix ?e w1)"
    by (simp add: blinkiva_gauss_def args2z_simps world1_simps i env2_simps)
  have c: "carr w1 a = carr ?w0 a" for a
    using carr_init_nmf [of lib1 ?e "Some 3" ?w0 a] i by simp
  have Y: "carr (demix ?e w1) 6 = [[[1, 2]]]"
    using demix_Y [of ?e w1]
    by (simp add: env2_simps c ex2_allocate array_eval sum_lessThan_2)
  show ?thesis
    by (simp add: run Y args2z_simps env2_simps)
qed

section \<open>The floor at machine epsilon\<close>




section \<open>The recorded cost\<close>

text \<open>
  Claim C4, as amended.  With \<^verbatim>\<open>print_cost\<close>, the joint cost
  \<^verbatim>\<open>cost_nmf(U, G, R) + cost_iva(Y, W, R_all)\<close> is recorded at the start of every epoch
  whose index is a multiple of ten (lines 134-136), computed from the arrays as that epoch
  finds them, and at no other epoch; without \<^verbatim>\<open>print_cost\<close> nothing is recorded.  A call
  that returns has recorded \<open>\<lceil>n_iter / 10\<rceil>\<close> costs, in the order of the epochs.  The
  recorded sequence need not be non-increasing.  The hypotheses: the call returns; the
  value recorded is stated for the states at which the logarithms and quotients of the
  two costs are defined.
\<close>

theorem recorded_costs:
  assumes "blinkiva_gauss x a w = (Inr r, w')"
  shows "(\<exists>cs. stdout w' = stdout w @ cs
            \<and> length cs = (if p_print_cost a then (p_n_iter a + 9) div 10 else 0))
       \<and> (\<forall>k v. cost_defined (mk_env a w) v \<longrightarrow>
             stdout (snd (epoch_body x (mk_env a w) a k v)) =
             (if p_print_cost a \<and> k mod 10 = 0
              then stdout v @ [cost_nmf (mk_env a w) (rarr v (aU (mk_env a w))) (rarr v (aG (mk_env a w)))
                                 (rarr v (aR_all (mk_env a w)))
                               + cost_iva (mk_env a w) (carr v (aY (mk_env a w))) (carr v (aW (mk_env a w)))
                                 (rarr v (aR_all (mk_env a w)))]
              else stdout v))"
proof -
  let ?e = "mk_env a w"
  let ?w0 = "allocate a ?e w"
  have eq: "length (rarr w (p_U a)) = length (carr w (p_X a))"
    using assms by (auto simp: blinkiva_gauss_def split: if_splits)
  obtain r1 w1 where i: "init_nmf x ?e (p_seed a) ?w0 = (r1, w1)"
    by (cases "init_nmf x ?e (p_seed a) ?w0")
  obtain r2 w2 where l: "for_each (epoch_body x ?e a) [0..<p_n_iter a] (demix ?e w1) = (r2, w2)"
    by (cases "for_each (epoch_body x ?e a) [0..<p_n_iter a] (demix ?e w1)")
  have r1: "r1 = None" and r2: "r2 = None"
    using assms eq i l by (auto simp: blinkiva_gauss_def Let_def split: option.splits)
  have s1: "stdout (demix ?e w1) = stdout w"
    using stdout_init_nmf [of x ?e "p_seed a" ?w0] i by (simp add: stdout_demix allocate_def)
  have "w' = (if p_proj_back a
              then w2\<lparr>carr := (carr w2)(aY ?e := projected x (carr w2 (aY ?e)) (carr w2 (aX ?e)))\<rparr>
              else w2)"
    using assms eq i l r1 r2 by (simp add: blinkiva_gauss_def Let_def)
  then have s2: "stdout w' = stdout w2"
    by simp
  obtain cs where "stdout w2 = stdout (demix ?e w1) @ cs"
      "length cs = (if p_print_cost a then length (filter (\<lambda>k. k mod 10 = 0) [0..<p_n_iter a]) else 0)"
    using stdout_epochs [OF l [unfolded r2]] by blast
  then have "\<exists>cs. stdout w' = stdout w @ cs
            \<and> length cs = (if p_print_cost a then (p_n_iter a + 9) div 10 else 0)"
    unfolding s1 s2 count_tenth by blast
  then show ?thesis
    by (intro conjI allI impI fst_epoch_body_stdout)
qed

theorem recorded_costs_witness:
  "fst (blinkiva_gauss lib1 args1 world1) = Inr (RetFilters 6 5 4 3)
   \<and> (\<exists>cs. stdout (snd (blinkiva_gauss lib1 args1 world1)) = stdout world1 @ cs \<and> length cs = 2)
   \<and> cost_defined (mk_env args1 world1)
        (demix (mk_env args1 world1)
           (snd (init_nmf lib1 (mk_env args1 world1) (Some 3)
                   (allocate args1 (mk_env args1 world1) world1))))
   \<and> stdout (snd (epoch_body lib1 (mk_env args1 world1) args1 0
        (demix (mk_env args1 world1)
           (snd (init_nmf lib1 (mk_env args1 world1) (Some 3)
                   (allocate args1 (mk_env args1 world1) world1)))))) = [2]"
proof -
  let ?e = "mk_env args1 world1"
  let ?S0 = "demix ?e (snd (init_nmf lib1 ?e (Some 3) (allocate args1 ?e world1)))"
  note entry = ex1_entry [OF refl]
  have f: "fst (blinkiva_gauss lib1 args1 world1) = Inr (RetFilters 6 5 4 3)"
    using ex1_run by simp
  then have run: "blinkiva_gauss lib1 args1 world1
                  = (Inr (RetFilters 6 5 4 3), snd (blinkiva_gauss lib1 args1 world1))"
    by (simp add: prod_eq_iff)
  have d: "cost_defined ?e ?S0"
    by (simp add: cost_defined_def env1_simps entry U_hat_of_def array_eval)
  note t = recorded_costs [OF run]
  have A: "\<exists>cs. stdout (snd (blinkiva_gauss lib1 args1 world1)) = stdout world1 @ cs \<and> length cs = 2"
    using t by (simp add: args1_simps)
  have "stdout (snd (epoch_body lib1 ?e args1 0 ?S0)) = [2]"
    using t d ex1_entry_cost by (simp add: args1_simps env1_simps entry)
  then show ?thesis
    using f A d by simp
qed

text \<open>
  Claim C4 as stated fails on the smallest input, one frame of one frequency and one
  channel with one sensor, \<^verbatim>\<open>X = [[[1]]]\<close> and \<^verbatim>\<open>U = [[2]]\<close>, with eleven epochs of four
  sub-iterations and \<^verbatim>\<open>print_cost\<close>.  The call returns and has recorded two costs.  At
  epoch 0 all of \<^verbatim>\<open>W\<close>, \<^verbatim>\<open>Y\<close>, \<^verbatim>\<open>R_all\<close> and \<^verbatim>\<open>G\<close> are 1 and the cost is 2.  The covariance
  of line 170 weighs the frame by \<open>1 / (2 R_all + 10\<^sup>-\<^sup>1\<^sup>5)\<close>, so every demixing update leaves
  \<open>|W|\<^sup>2 = |Y|\<^sup>2 = 2 + 10\<^sup>-\<^sup>1\<^sup>5\<close> while the rescale keeps \<^verbatim>\<open>R_all\<close> at 1; the cost recorded at
  epoch 10 is at least 2.16, eight percent above the first.
\<close>

theorem cost_increases_counterexample:
  "fst (blinkiva_gauss lib1 args1 world1) = Inr (RetFilters 6 5 4 3)
   \<and> length (stdout (snd (blinkiva_gauss lib1 args1 world1))) = 2
   \<and> stdout (snd (blinkiva_gauss lib1 args1 world1)) ! 0 = 2
   \<and> 54 / 25 \<le> stdout (snd (blinkiva_gauss lib1 args1 world1)) ! 1"
  by (rule ex1_run)

end
